theory Spec2Isabelle
  imports
    Main
    "HOL-Library.Multiset"
    "HOL-Library.List_Lexorder"
    "HOL-Library.Char_ord"
    "HOL-Library.Product_Lexorder"
begin

section \<open>Dendron navigation trees: the hierarchy toolkit, the tree menu and the sidebar resolver\<close>

text \<open>
  A shallow embedding of \<^verbatim>\<open>packages/common-all/src/util/treeUtil.ts\<close> (class \<^verbatim>\<open>TreeUtils\<close>)
  and of the sidebar resolver (\<^verbatim>\<open>sidebars.ts\<close>: \<^verbatim>\<open>defaultSidebarItemsGenerator\<close>,
  \<^verbatim>\<open>processSiderbar\<close>, \<^verbatim>\<open>processSidebars\<close>, \<^verbatim>\<open>getPriorityVaults\<close>).

  Conventions of the embedding.
  \<^item> A JavaScript string is a \<open>string\<close>; the comparisons \<^verbatim>\<open><\<close> and \<^verbatim>\<open>>\<close> are the
    lexicographic order on the characters. The order of \<^verbatim>\<open>localeCompare\<close> is that of the
    locale; it is taken to be the same order (the two agree on the strings that the
    examples below compare).
  \<^item> A JavaScript object used as a dictionary (\<^verbatim>\<open>NotePropsByIdDict\<close>, \<^verbatim>\<open>Sidebars\<close>) is an
    association list in the enumeration order of \<^verbatim>\<open>Object.values\<close>/\<^verbatim>\<open>Object.entries\<close>;
    the own properties are \<open>map_of\<close>, and a read \<^verbatim>\<open>dict[key]\<close> is \<open>propertyOf\<close>, which also
    finds the members inherited from \<^verbatim>\<open>Object.prototype\<close>. \<^verbatim>\<open>_.get(dict, path)\<close> of lodash
    reads its argument as a path.
  \<^item> A \<^verbatim>\<open>throw\<close> is the left injection of a sum; a recursion that follows the note graph
    takes fuel and returns \<open>None\<close> when the fuel is used up, so that a call that does not
    come back is a value of the model.
  \<^item> A number (\<^verbatim>\<open>nav_order\<close>, \<^verbatim>\<open>updated\<close>) is an \<open>int\<close>.
\<close>

subsection \<open>Strings\<close>

text \<open>\<^verbatim>\<open>s.split(sep)\<close> for a one-character separator: never empty, \<^verbatim>\<open>"".split(".")\<close> is \<^verbatim>\<open>[""]\<close>.\<close>

fun split :: "char \<Rightarrow> string \<Rightarrow> string list" where
  "split sep [] = [[]]"
| "split sep (c # cs) =
     (if c = sep then [] # split sep cs
      else (case split sep cs of [] \<Rightarrow> [[c]] | w # ws \<Rightarrow> (c # w) # ws))"

text \<open>\<^verbatim>\<open>s.toLowerCase()\<close> on the ASCII letters.\<close>

definition toLowerChar :: "char \<Rightarrow> char" where
  "toLowerChar c =
     (if CHR ''A'' \<le> c \<and> c \<le> CHR ''Z'' then char_of (of_char c + (32::nat)) else c)"

definition toLowerCase :: "string \<Rightarrow> string" where
  "toLowerCase s = map toLowerChar s"

text \<open>\<^verbatim>\<open>s.startsWith(p)\<close>.\<close>

definition startsWith :: "string \<Rightarrow> string \<Rightarrow> bool" where
  "startsWith s p = (take (length p) s = p)"

lemma split_not_Nil: "split sep s \<noteq> []"
  by (induction s) (auto split: list.splits)

lemma split_no_sep: "sep \<notin> set s \<Longrightarrow> split sep s = [s]"
  by (induction s) auto

lemma length_split: "length (split sep s) = Suc (length (filter (\<lambda>c. c = sep) s))"
  by (induction s) (auto split: list.splits simp: split_not_Nil)

lemma split_single_iff: "length (split sep s) = 1 \<longleftrightarrow> sep \<notin> set s"
  by (auto simp: length_split filter_empty_conv)

lemma split_single_Suc: "length (split sep s) = Suc 0 \<longleftrightarrow> sep \<notin> set s"
  using split_single_iff [of sep s] by simp

subsection \<open>Notes and the note dictionary\<close>

record DVault =
  name :: "string option"
  fsPath :: string

text \<open>
  The front matter of a note that publishing reads (\<^verbatim>\<open>note.custom\<close>): \<^verbatim>\<open>nav_order\<close>,
  \<^verbatim>\<open>sort_order\<close> and \<^verbatim>\<open>nav_exclude\<close>, each of which may be unset.
\<close>

record PublishFM =
  nav_order :: "int option"
  sort_order :: "string option"
  nav_exclude :: "bool option"

text \<open>
  \<^verbatim>\<open>NoteProps\<close>, with the fields these functions read. The field \<^verbatim>\<open>id\<close> is \<open>id'\<close>;
  \<^verbatim>\<open>schema\<close> is only tested for presence.
\<close>

record NoteProps =
  id' :: string
  fname :: string
  title :: string
  children :: "string list"
  vault :: DVault
  stub :: bool
  schema :: "unit option"
  custom :: "PublishFM option"
  updated :: int

type_synonym NotePropsByIdDict = "(string \<times> NoteProps) list"

text \<open>
  Modelled from the spec: \<^verbatim>\<open>PublishUtils.getPublishFM\<close> is not among the sources; it
  returns the front-matter-derived publish flags of the note (navigation exclusion, sort
  order, explicit position), none of them set when the note has no front matter.
\<close>

definition getPublishFM :: "NoteProps \<Rightarrow> PublishFM" where
  "getPublishFM note =
     (case custom note of
        None \<Rightarrow> \<lparr>nav_order = None, sort_order = None, nav_exclude = None\<rparr>
      | Some fm \<Rightarrow> fm)"

text \<open>
  A dictionary of the code is a plain object, so a read \<^verbatim>\<open>dict[key]\<close> also finds the
  members that every plain object inherits from \<^verbatim>\<open>Object.prototype\<close>: for a key that is
  no own property but the name of such a member the read gives the member (a function, or
  the prototype itself for \<^verbatim>\<open>__proto__\<close>), which is neither \<^verbatim>\<open>undefined\<close> nor falsy and has
  none of the fields of a note.
\<close>

definition objectPrototypeKeys :: "string list" where
  "objectPrototypeKeys =
     [''constructor'', ''__defineGetter__'', ''__defineSetter__'', ''hasOwnProperty'',
      ''__lookupGetter__'', ''__lookupSetter__'', ''isPrototypeOf'', ''propertyIsEnumerable'',
      ''toString'', ''valueOf'', ''__proto__'', ''toLocaleString'']"

datatype 'a Property = Undefined | Own 'a | Inherited string

definition propertyOf :: "(string \<rightharpoonup> 'a) \<Rightarrow> string \<Rightarrow> 'a Property" where
  "propertyOf object key =
     (case object key of
        Some v \<Rightarrow> Own v
      | None \<Rightarrow> if key \<in> set objectPrototypeKeys then Inherited key else Undefined)"


lemma propertyOf_Some: "object key = Some v \<Longrightarrow> propertyOf object key = Own v"
  by (simp add: propertyOf_def)

lemma propertyOf_Undefined_iff:
  "propertyOf object key = Undefined \<longleftrightarrow> object key = None \<and> key \<notin> set objectPrototypeKeys"
  by (simp add: propertyOf_def split: option.splits)

text \<open>What the code throws and what it returns as an error value.\<close>

datatype DendronError =
    FnameDiffers string string
  | ChildrenMismatch string "string list" "string list"
  | ChildMismatch string DendronError
  | NoNoteFound string
  | OmittedIds "string list"
  | DoesNotExist string
  | InvalidConfig

datatype Thrown = TypeError | Dendron DendronError

text \<open>
  The results of a list of calls made in order (\<^verbatim>\<open>xs.map(f)\<close> with an \<open>f\<close> that may throw):
  the first call that throws or does not return decides.
\<close>

fun collect :: "('e + 'a) option list \<Rightarrow> ('e + 'a list) option" where
  "collect [] = Some (Inr [])"
| "collect (None # rs) = None"
| "collect (Some (Inl e) # rs) = Some (Inl e)"
| "collect (Some (Inr x) # rs) =
     (case collect rs of
        None \<Rightarrow> None
      | Some (Inl e) \<Rightarrow> Some (Inl e)
      | Some (Inr xs) \<Rightarrow> Some (Inr (x # xs)))"

subsection \<open>Trees of path segments\<close>

datatype TreeNode = TreeNode (tfname: string) (tchildren: "TreeNode list")

text \<open>
  \<^verbatim>\<open>createTreeFromEngine\<close>: the children of the note, without the note itself, in the order
  of their ids, each expanded in turn; the node is named by the last segment of the path.
  For an id that reads an inherited member the test \<^verbatim>\<open>if (note)\<close> passes and
  \<^verbatim>\<open>note.children.filter\<close> throws a \<^verbatim>\<open>TypeError\<close>.
\<close>

fun createTreeFromEngine ::
  "nat \<Rightarrow> NotePropsByIdDict \<Rightarrow> string \<Rightarrow> (Thrown + TreeNode) option" where
  "createTreeFromEngine 0 allNotes rootNoteId = None"
| "createTreeFromEngine (Suc fuel) allNotes rootNoteId =
     (case propertyOf (map_of allNotes) rootNoteId of
        Own note \<Rightarrow>
          (case collect (map (createTreeFromEngine fuel allNotes)
                  (sort (filter (\<lambda>child. child \<noteq> id' note) (children note)))) of
             None \<Rightarrow> None
           | Some (Inl e) \<Rightarrow> Some (Inl e)
           | Some (Inr cs) \<Rightarrow> Some (Inr (TreeNode (last (split CHR ''.'' (fname note))) cs)))
      | Inherited member \<Rightarrow> Some (Inl TypeError)
      | Undefined \<Rightarrow> Some (Inl (Dendron (NoNoteFound rootNoteId))))"

text \<open>
  \<^verbatim>\<open>createTreeFromFileNames\<close>. The reducer walks the segments of one name down the tree:
  at each level it takes the first child named by the segment, or pushes a new one.
\<close>

fun findOrPush ::
  "string \<Rightarrow> (TreeNode list \<Rightarrow> TreeNode list) \<Rightarrow> TreeNode list \<Rightarrow> TreeNode list" where
  "findOrPush f below [] = [TreeNode f (below [])]"
| "findOrPush f below (q # qs) =
     (if tfname q = f then TreeNode (tfname q) (below (tchildren q)) # qs
      else q # findOrPush f below qs)"

primrec insertPath :: "string list \<Rightarrow> TreeNode list \<Rightarrow> TreeNode list" where
  "insertPath [] = (\<lambda>cs. cs)"
| "insertPath (f # fs) = findOrPush f (insertPath fs)"

definition createTreeFromFileNames :: "string list \<Rightarrow> string \<Rightarrow> TreeNode" where
  "createTreeFromFileNames fNames rootNote =
     TreeNode rootNote
       (foldl (\<lambda>result name.
                 if name \<noteq> rootNote then insertPath (split CHR ''.'' name) result else result)
          [] fNames)"

text \<open>
  \<^verbatim>\<open>validateTreeNodes\<close>: \<open>Inr ()\<close> is \<^verbatim>\<open>{ data: undefined }\<close>, \<open>Inl\<close> carries the error. Both
  lists of children are sorted by name before they are compared; the trees are values here,
  so the reordering of the arguments is visible only through the result. The loop over the
  children returns at the first pair that fails: the first error in the list of the results.
\<close>

function validateTreeNodes :: "TreeNode \<Rightarrow> TreeNode \<Rightarrow> DendronError + unit" where
  "validateTreeNodes expectedTree actualTree =
     (if tfname expectedTree \<noteq> tfname actualTree
      then Inl (FnameDiffers (tfname expectedTree) (tfname actualTree))
      else
        let ec = sort_key tfname (tchildren expectedTree);
            ac = sort_key tfname (tchildren actualTree)
        in if length ec \<noteq> length ac
           then Inl (ChildrenMismatch (tfname expectedTree) (map tfname ec) (map tfname ac))
           else (case List.find isl (map (\<lambda>(v, a). validateTreeNodes v a) (zip ec ac)) of
                   Some (Inl e) \<Rightarrow> Inl (ChildMismatch (tfname expectedTree) e)
                 | _ \<Rightarrow> Inr ()))"
  by pat_completeness auto
termination
  apply (relation "measure (\<lambda>(e, a). size e)")
   apply simp
  subgoal for e a ec ac x v a'
    apply (cases e)
    apply (auto dest!: set_zip_leftD simp: less_Suc_eq_le size_list_estimation')
    done
  done

text \<open>A note with the given id, path and children, and nothing else set.\<close>

definition plainNote :: "string \<Rightarrow> string \<Rightarrow> string list \<Rightarrow> NoteProps" where
  "plainNote i f cs =
     \<lparr>id' = i, fname = f, title = f, children = cs,
      vault = \<lparr>name = None, fsPath = ''vault''\<rparr>,
      stub = False, schema = None, custom = None, updated = 0\<rparr>"

text \<open>The note graph of the round trip: \<open>a\<close> with the children \<open>a.b\<close> and \<open>a.c\<close>.\<close>

definition abcNotes :: NotePropsByIdDict where
  "abcNotes =
     [(''a'', plainNote ''a'' ''a'' [''a.b'', ''a.c'']),
      (''a.b'', plainNote ''a.b'' ''a.b'' []),
      (''a.c'', plainNote ''a.c'' ''a.c'' [])]"

text \<open>The same graph below a root note of its own, with the path \<open>r\<close>.\<close>

definition rootedNotes :: "string \<Rightarrow> NotePropsByIdDict" where
  "rootedNotes r = (''root-id'', plainNote ''root-id'' r [''a'']) # abcNotes"

subsection \<open>The two tree constructions compared\<close>

text \<open>
  C1 (as stated): for the names \<open>a.b\<close>, \<open>a.c\<close> and the root name \<open>a\<close>, the tree of
  \<^verbatim>\<open>createTreeFromFileNames\<close> and the tree of \<^verbatim>\<open>createTreeFromEngine\<close> over the notes
  \<open>a\<close>, \<open>a.b\<close>, \<open>a.c\<close> rooted at \<open>a\<close> pass \<^verbatim>\<open>validateTreeNodes\<close>. They do not: the tree of
  names keeps the first segment \<open>a\<close> of every name as a node below the root, so its root has
  the one child \<open>a\<close>, while the root of the engine tree has the two children \<open>b\<close> and \<open>c\<close>;
  \<^verbatim>\<open>validateTreeNodes\<close> reports the mismatch of the children in either order of its arguments.
\<close>

theorem C1_roundtrip_counterexample:
  "createTreeFromEngine 3 abcNotes ''a''
     = Some (Inr (TreeNode ''a'' [TreeNode ''b'' [], TreeNode ''c'' []]))
   \<and> createTreeFromFileNames [''a.b'', ''a.c''] ''a''
     = TreeNode ''a'' [TreeNode ''a'' [TreeNode ''b'' [], TreeNode ''c'' []]]
   \<and> validateTreeNodes (createTreeFromFileNames [''a.b'', ''a.c''] ''a'')
        (TreeNode ''a'' [TreeNode ''b'' [], TreeNode ''c'' []])
     = Inl (ChildrenMismatch ''a'' [''a''] [''b'', ''c''])
   \<and> validateTreeNodes (TreeNode ''a'' [TreeNode ''b'' [], TreeNode ''c'' []])
        (createTreeFromFileNames [''a.b'', ''a.c''] ''a'')
     = Inl (ChildrenMismatch ''a'' [''b'', ''c''] [''a''])"
  by code_simp

text \<open>
  C1 (amended): the root name of \<^verbatim>\<open>createTreeFromFileNames\<close> is a node of its own above the
  first segments. For the names \<open>a.b\<close>, \<open>a.c\<close> and every root name \<open>r\<close> without a dot (\<open>a\<close>
  among them) the tree is \<open>r\<close> over \<open>a\<close> over \<open>b\<close> and \<open>c\<close>, and it passes
  \<^verbatim>\<open>validateTreeNodes\<close>, in either order, against the tree that \<^verbatim>\<open>createTreeFromEngine\<close>
  returns (with any fuel from 3 on) over the notes \<open>a\<close>, \<open>a.b\<close>, \<open>a.c\<close> placed below a root
  note of path \<open>r\<close> whose only child is \<open>a\<close>.
\<close>

theorem C1_roundtrip_below_root:
  assumes "CHR ''.'' \<notin> set r"
  shows "\<exists>t. createTreeFromEngine (Suc (Suc (Suc n))) (rootedNotes r) ''root-id'' = Some (Inr t)
           \<and> t = TreeNode r [TreeNode ''a'' [TreeNode ''b'' [], TreeNode ''c'' []]]
           \<and> createTreeFromFileNames [''a.b'', ''a.c''] r = t
           \<and> validateTreeNodes (createTreeFromFileNames [''a.b'', ''a.c''] r) t = Inr ()
           \<and> validateTreeNodes t (createTreeFromFileNames [''a.b'', ''a.c''] r) = Inr ()"
proof -
  let ?t = "TreeNode r [TreeNode ''a'' [TreeNode ''b'' [], TreeNode ''c'' []]]"
  have engine: "createTreeFromEngine (Suc (Suc (Suc n))) (rootedNotes r) ''root-id'' = Some (Inr ?t)"
    using assms
    by (simp add: rootedNotes_def abcNotes_def plainNote_def split_no_sep propertyOf_def)
  have names: "createTreeFromFileNames [''a.b'', ''a.c''] r = ?t"
    using assms by (auto simp: createTreeFromFileNames_def)
  have same: "validateTreeNodes ?t ?t = Inr ()"
    by simp
  show ?thesis
    using engine names same by simp
qed

theorem C1_roundtrip_below_root_witness:
  "CHR ''.'' \<notin> set ''a''
   \<and> (\<exists>t. createTreeFromEngine 3 (rootedNotes ''a'') ''root-id'' = Some (Inr t)
         \<and> t = TreeNode ''a'' [TreeNode ''a'' [TreeNode ''b'' [], TreeNode ''c'' []]]
         \<and> createTreeFromFileNames [''a.b'', ''a.c''] ''a'' = t
         \<and> validateTreeNodes (createTreeFromFileNames [''a.b'', ''a.c''] ''a'') t = Inr ()
         \<and> validateTreeNodes t (createTreeFromFileNames [''a.b'', ''a.c''] ''a'') = Inr ())"
proof -
  have h: "CHR ''.'' \<notin> set ''a''" by simp
  show ?thesis
    using h C1_roundtrip_below_root [OF h, of 0] by (simp add: numeral_3_eq_3)
qed

subsection \<open>The chain of parents\<close>

text \<open>
  \<^verbatim>\<open>child2parent\<close> is a plain object that maps an id to its parent or to \<^verbatim>\<open>null\<close>
  (\<open>Some None\<close>). A value of the variable \<^verbatim>\<open>parent\<close> is a read of \<^verbatim>\<open>child2parent\<close>. The
  loop \<^verbatim>\<open>while (parent)\<close> goes on for a non-empty string and for an inherited member, and
  stops at \<^verbatim>\<open>undefined\<close>, \<^verbatim>\<open>null\<close> and the empty string. What it puts into the result is
  the string, or the member.
\<close>

type_synonym Child2Parent = "string \<rightharpoonup> string option"

datatype JsValue = Str string | Member string

definition truthy :: "string option Property \<Rightarrow> JsValue option" where
  "truthy parent =
     (case parent of
        Own (Some p) \<Rightarrow> if p = [] then None else Some (Str p)
      | Own None \<Rightarrow> None
      | Inherited member \<Rightarrow> Some (Member member)
      | Undefined \<Rightarrow> None)"

text \<open>
  The key of \<^verbatim>\<open>child2parent[parent]\<close>: the string itself, and for a member the string that
  JavaScript makes of it. For a built-in function that is its source text, which the
  implementation chooses: the function \<open>memberString\<close> is a parameter. \<open>nativeText\<close> is
  the text that V8 gives.
\<close>

definition toKey :: "(string \<Rightarrow> string) \<Rightarrow> JsValue \<Rightarrow> string" where
  "toKey memberString v = (case v of Str p \<Rightarrow> p | Member member \<Rightarrow> memberString member)"

definition nativeText :: "string \<Rightarrow> string" where
  "nativeText member =
     (if member = ''__proto__'' then ''[object Object]''
      else if member = ''constructor'' then ''function Object() { [native code] }''
      else ''function '' @ member @ ''() { [native code] }'')"

text \<open>
  The loop of \<^verbatim>\<open>getAllParents\<close>; \<^verbatim>\<open>unshift\<close> puts the parent in front. The loop has no
  bound, so it is a partial function: \<open>None\<close> is a loop that never ends.
\<close>

partial_function (option) getAllParents_loop ::
  "(string \<Rightarrow> string) \<Rightarrow> Child2Parent \<Rightarrow> JsValue list \<Rightarrow> string option Property
     \<Rightarrow> JsValue list option" where
  "getAllParents_loop memberString child2parent activeNoteIds parent =
     (case truthy parent of
        Some v \<Rightarrow>
          getAllParents_loop memberString child2parent (v # activeNoteIds)
            (propertyOf child2parent (toKey memberString v))
      | None \<Rightarrow> Some activeNoteIds)"

definition getAllParents ::
  "(string \<Rightarrow> string) \<Rightarrow> Child2Parent \<Rightarrow> string \<Rightarrow> JsValue list option" where
  "getAllParents memberString child2parent noteId =
     getAllParents_loop memberString child2parent [] (propertyOf child2parent noteId)"

text \<open>
  The values met from a value of \<^verbatim>\<open>parent\<close> on, nearest first, when the chain ends: at
  \<^verbatim>\<open>undefined\<close>, \<^verbatim>\<open>null\<close> or the empty string.
\<close>

inductive parentChain ::
  "(string \<Rightarrow> string) \<Rightarrow> Child2Parent \<Rightarrow> string option Property \<Rightarrow> JsValue list \<Rightarrow> bool"
  for memberString child2parent where
  chain_end: "truthy parent = None \<Longrightarrow> parentChain memberString child2parent parent []"
| chain_step: "truthy parent = Some v
     \<Longrightarrow> parentChain memberString child2parent (propertyOf child2parent (toKey memberString v)) vs
     \<Longrightarrow> parentChain memberString child2parent parent (v # vs)"

code_pred parentChain .

lemma loop_of_chain:
  "parentChain ms m parent vs \<Longrightarrow> getAllParents_loop ms m acc parent = Some (rev vs @ acc)"
proof (induction arbitrary: acc rule: parentChain.induct)
  case (chain_end parent)
  then show ?case by (subst getAllParents_loop.simps) simp
next
  case (chain_step parent v vs)
  then show ?case by (subst getAllParents_loop.simps) simp
qed

lemma chain_of_loop:
  assumes "getAllParents_loop ms m acc parent = Some r"
  shows "\<exists>vs. parentChain ms m parent vs \<and> r = rev vs @ acc"
proof (rule getAllParents_loop.raw_induct
    [where P = "\<lambda>ms m acc parent r. \<exists>vs. parentChain ms m parent vs \<and> r = rev vs @ acc",
     OF _ assms])
  fix loop ms m acc parent r
  assume IH: "\<And>ms m acc parent r. loop ms m acc parent = Some r
      \<Longrightarrow> \<exists>vs. parentChain ms m parent vs \<and> r = rev vs @ acc"
    and eq: "(case truthy parent of None \<Rightarrow> Some acc
              | Some v \<Rightarrow> loop ms m (v # acc) (propertyOf m (toKey ms v))) = Some r"
  show "\<exists>vs. parentChain ms m parent vs \<and> r = rev vs @ acc"
  proof (cases "truthy parent")
    case None
    with eq have "r = acc" by simp
    with None show ?thesis by (auto intro: parentChain.chain_end)
  next
    case (Some v)
    with eq have "loop ms m (v # acc) (propertyOf m (toKey ms v)) = Some r" by simp
    from IH [OF this] obtain vs where
      "parentChain ms m (propertyOf m (toKey ms v)) vs" "r = rev vs @ v # acc" by blast
    with Some have "parentChain ms m parent (v # vs) \<and> r = rev (v # vs) @ acc"
      by (auto intro: parentChain.chain_step)
    then show ?thesis by blast
  qed
qed

text \<open>The loop returns exactly when the chain ends.\<close>

lemma getAllParents_returns_iff:
  "(\<exists>r. getAllParents ms m noteId = Some r) \<longleftrightarrow> (\<exists>vs. parentChain ms m (propertyOf m noteId) vs)"
  unfolding getAllParents_def using loop_of_chain chain_of_loop by blast

text \<open>
  An id that has no entry but is the name of an inherited member is not the end of a
  chain: the member is put into the result.
\<close>

lemma getAllParents_inherited:
  "getAllParents nativeText Map.empty ''constructor'' = Some [Member ''constructor'']"
proof -
  have "parentChain nativeText Map.empty (propertyOf Map.empty ''constructor'') [Member ''constructor'']"
    by (rule parentChain.chain_step [where v = "Member ''constructor''"])
       (auto intro!: parentChain.chain_end
             simp: truthy_def propertyOf_def objectPrototypeKeys_def toKey_def nativeText_def)
  from loop_of_chain [OF this, of "[]"] show ?thesis by (simp add: getAllParents_def)
qed

text \<open>A map with a cycle: \<open>a\<close> has the parent \<open>b\<close> and \<open>b\<close> has the parent \<open>a\<close>.\<close>

definition cyclicParents :: Child2Parent where
  "cyclicParents = [''a'' \<mapsto> Some ''b'', ''b'' \<mapsto> Some ''a'']"

lemma no_chain_in_cycle:
  "parentChain ms cyclicParents parent vs
   \<Longrightarrow> parent \<noteq> Own (Some ''a'') \<and> parent \<noteq> Own (Some ''b'')"
  by (induction rule: parentChain.induct)
     (auto simp: truthy_def cyclicParents_def propertyOf_def toKey_def split: if_splits)

text \<open>
  C2 (as stated): \<^verbatim>\<open>getAllParents\<close> terminates for every map, also for one with a cycle. The
  loop has no guard against a cycle: on the map \<open>a \<mapsto> b\<close>, \<open>b \<mapsto> a\<close> and the start \<open>a\<close> it never
  returns.
\<close>

theorem C2_getAllParents_cycle_counterexample:
  "getAllParents nativeText cyclicParents ''a'' = None"
proof (cases "getAllParents nativeText cyclicParents ''a''")
  case None
  then show ?thesis .
next
  case (Some r)
  then have "getAllParents_loop nativeText cyclicParents [] (Own (Some ''b'')) = Some r"
    by (simp add: getAllParents_def cyclicParents_def propertyOf_def)
  from chain_of_loop [OF this] no_chain_in_cycle show ?thesis by blast
qed

text \<open>
  C2 (amended): \<^verbatim>\<open>getAllParents\<close> terminates for every map and every start from which the
  chain of parents \<open>ps\<close>, nearest first, runs through ids and ends: at a \<^verbatim>\<open>null\<close> parent, at
  an empty id, or at an id for which the read \<^verbatim>\<open>child2parent[id]\<close> is \<^verbatim>\<open>undefined\<close>. It then
  returns the ids of the chain with the root first: the reverse of the order in which they
  were met.
\<close>

theorem C2_getAllParents_chain:
  assumes "parentChain memberString child2parent (propertyOf child2parent noteId) (map Str ps)"
  shows "getAllParents memberString child2parent noteId = Some (map Str (rev ps))"
  using loop_of_chain [OF assms, of "[]"] by (simp add: getAllParents_def rev_map)

definition threeGenerations :: Child2Parent where
  "threeGenerations = [''c'' \<mapsto> Some ''b'', ''b'' \<mapsto> Some ''a'', ''a'' \<mapsto> None]"

theorem C2_getAllParents_chain_witness:
  "parentChain nativeText threeGenerations (propertyOf threeGenerations ''c'')
     (map Str [''b'', ''a''])
   \<and> getAllParents nativeText threeGenerations ''c'' = Some [Str ''a'', Str ''b'']"
proof -
  have h: "parentChain nativeText threeGenerations (propertyOf threeGenerations ''c'')
     (map Str [''b'', ''a''])"
    unfolding list.map
    by (rule parentChain.chain_step [where v = "Str ''b''"] parentChain.chain_step [where v = "Str ''a''"]
          parentChain.chain_end
        | simp add: threeGenerations_def truthy_def propertyOf_def toKey_def)+
  show ?thesis
    using h C2_getAllParents_chain [OF h] by simp
qed

subsection \<open>Sorting the notes of one level\<close>

datatype TreeViewItemLabelTypeEnum = LabelTitle | LabelFilename

record SortedNotes =
  data :: "string list"
  error :: "DendronError option"

text \<open>
  \<^verbatim>\<open>_.sortBy\<close> of lodash is a stable sort that compares the values of the iteratees in
  turn, in ascending order, and puts \<^verbatim>\<open>undefined\<close> after every value. The three iteratees
  become one key that is compared lexicographically; \<open>undefinedLast\<close> makes \<^verbatim>\<open>undefined\<close>
  the greatest value. \<open>sort_key\<close> is a stable insertion sort.
\<close>

definition undefinedLast :: "'a \<Rightarrow> 'a option \<Rightarrow> bool \<times> 'a" where
  "undefinedLast d v = (case v of None \<Rightarrow> (True, d) | Some x \<Rightarrow> (False, x))"

text \<open>
  \<^verbatim>\<open>_.get(noteDict, noteId)\<close> of lodash takes a path, not a key: an id that is a key of
  the dictionary is looked up as it is, and any other id is read as a path (\<^verbatim>\<open>"a.title"\<close>
  is the property \<^verbatim>\<open>title\<close> of \<^verbatim>\<open>noteDict["a"]\<close>; \<^verbatim>\<open>"constructor"\<close> is the inherited
  member of that name). The reading of an id that is no key of the dictionary is the
  parameter \<open>readsAsPath\<close>: whether the path leads to a value that is not \<^verbatim>\<open>undefined\<close>.
\<close>

definition lodashGetDefined ::
  "(NotePropsByIdDict \<Rightarrow> string \<Rightarrow> bool) \<Rightarrow> NotePropsByIdDict \<Rightarrow> string \<Rightarrow> bool" where
  "lodashGetDefined readsAsPath noteDict noteId =
     (map_of noteDict noteId \<noteq> None \<or> readsAsPath noteDict noteId)"

text \<open>
  The name of an inherited member, and the paths of two segments, a key of the dictionary
  and a field that every note has. (The paths that lodash reads are more: longer paths,
  paths through an inherited member and the bracket syntax are left out here.)
\<close>

definition twoSegmentPath :: "NotePropsByIdDict \<Rightarrow> string \<Rightarrow> bool" where
  "twoSegmentPath noteDict noteId =
     (case split CHR ''.'' noteId of
        [k] \<Rightarrow> k \<in> set objectPrototypeKeys
      | [k, field] \<Rightarrow>
          map_of noteDict k \<noteq> None
          \<and> field \<in> set [''id'', ''fname'', ''title'', ''children'', ''vault'', ''updated'']
      | _ \<Rightarrow> False)"

text \<open>
  \<^verbatim>\<open>noteDict[noteId]?.custom?.nav_order\<close>. An inherited member has no property \<^verbatim>\<open>custom\<close>:
  the value is \<^verbatim>\<open>undefined\<close> for every id that is no key of the dictionary.
\<close>

definition navOrderOf :: "NotePropsByIdDict \<Rightarrow> string \<Rightarrow> int option" where
  "navOrderOf noteDict noteId =
     (case map_of noteDict noteId of
        None \<Rightarrow> None
      | Some note \<Rightarrow> (case custom note of None \<Rightarrow> None | Some fm \<Rightarrow> nav_order fm))"

text \<open>
  The label: the last segment of the path under \<^verbatim>\<open>TreeViewItemLabelTypeEnum.filename\<close>,
  the title otherwise, in lower case. For an id without a note the optional chain gives
  \<^verbatim>\<open>undefined\<close>. For the name of an inherited member, \<^verbatim>\<open>noteDict[noteId]\<close> is that member:
  its \<^verbatim>\<open>title\<close> is \<^verbatim>\<open>undefined\<close>, and \<^verbatim>\<open>fname.split\<close> on its \<^verbatim>\<open>fname\<close>, which is
  \<^verbatim>\<open>undefined\<close>, throws a \<^verbatim>\<open>TypeError\<close>.
\<close>

definition labelOf ::
  "TreeViewItemLabelTypeEnum option \<Rightarrow> NotePropsByIdDict \<Rightarrow> string \<Rightarrow> Thrown + string option" where
  "labelOf labelType noteDict noteId =
     (case propertyOf (map_of noteDict) noteId of
        Undefined \<Rightarrow> Inr None
      | Inherited member \<Rightarrow> if labelType = Some LabelFilename then Inl TypeError else Inr None
      | Own note \<Rightarrow>
          (if labelType = Some LabelFilename
           then Inr (Some (toLowerCase (last (split CHR ''.'' (fname note)))))
           else Inr (Some (toLowerCase (title note)))))"

text \<open>\<^verbatim>\<open>noteDict[noteId]?.updated\<close>; an inherited member has no property \<^verbatim>\<open>updated\<close>.\<close>

definition updatedOf :: "NotePropsByIdDict \<Rightarrow> string \<Rightarrow> int option" where
  "updatedOf noteDict noteId = map_option updated (map_of noteDict noteId)"

definition sortKey ::
  "TreeViewItemLabelTypeEnum option \<Rightarrow> NotePropsByIdDict \<Rightarrow> string
     \<Rightarrow> Thrown + (bool \<times> int) \<times> (bool \<times> string) \<times> (bool \<times> int)" where
  "sortKey labelType noteDict noteId =
     (case labelOf labelType noteDict noteId of
        Inl e \<Rightarrow> Inl e
      | Inr label \<Rightarrow>
          Inr (undefinedLast 0 (navOrderOf noteDict noteId),
               undefinedLast [] label,
               undefinedLast 0 (updatedOf noteDict noteId)))"

text \<open>
  \<^verbatim>\<open>_.sortBy\<close> first calls the iteratees on every element, in the order of the list, and
  then sorts the elements by the values: an iteratee that throws ends the call.
\<close>

fun criteriaOf :: "('a \<Rightarrow> 'e + 'k) \<Rightarrow> 'a list \<Rightarrow> 'e + ('k \<times> 'a) list" where
  "criteriaOf iteratee [] = Inr []"
| "criteriaOf iteratee (x # xs) =
     (case iteratee x of
        Inl e \<Rightarrow> Inl e
      | Inr k \<Rightarrow>
          (case criteriaOf iteratee xs of
             Inl e \<Rightarrow> Inl e
           | Inr ks \<Rightarrow> Inr ((k, x) # ks)))"

definition sortBy :: "('a \<Rightarrow> 'e + 'k :: linorder) \<Rightarrow> 'a list \<Rightarrow> 'e + 'a list" where
  "sortBy iteratee xs =
     (case criteriaOf iteratee xs of
        Inl e \<Rightarrow> Inl e
      | Inr ks \<Rightarrow> Inr (map snd (sort_key fst ks)))"

text \<open>
  \<^verbatim>\<open>out.find((noteId) => noteDict[noteId].fname === TAGS_HIERARCHY_BASE)\<close>: the first id
  whose note has the path of the tags hierarchy. The access is unguarded: an id for which
  \<^verbatim>\<open>noteDict[noteId]\<close> is \<^verbatim>\<open>undefined\<close> throws a \<^verbatim>\<open>TypeError\<close> when \<^verbatim>\<open>find\<close> comes to it. For
  the name of an inherited member the \<^verbatim>\<open>fname\<close> is \<^verbatim>\<open>undefined\<close>, which is not the path of
  the tags hierarchy, and \<^verbatim>\<open>find\<close> goes on. The constant \<^verbatim>\<open>TAGS_HIERARCHY_BASE\<close> is not among
  the sources and is a parameter.
\<close>

fun findTagsHierarchy :: "string \<Rightarrow> NotePropsByIdDict \<Rightarrow> string list \<Rightarrow> Thrown + string option" where
  "findTagsHierarchy TAGS_HIERARCHY_BASE noteDict [] = Inr None"
| "findTagsHierarchy TAGS_HIERARCHY_BASE noteDict (noteId # rest) =
     (case propertyOf (map_of noteDict) noteId of
        Undefined \<Rightarrow> Inl TypeError
      | Inherited member \<Rightarrow> findTagsHierarchy TAGS_HIERARCHY_BASE noteDict rest
      | Own note \<Rightarrow>
          if fname note = TAGS_HIERARCHY_BASE then Inr (Some noteId)
          else findTagsHierarchy TAGS_HIERARCHY_BASE noteDict rest)"

text \<open>
  \<^verbatim>\<open>sortNotesAtLevel\<close>. An id is safe when \<^verbatim>\<open>_.get\<close> finds a value for it. The test
  \<^verbatim>\<open>maybeTagsHierarchy && ...\<close> fails for \<^verbatim>\<open>undefined\<close> and for the empty id; \<^verbatim>\<open>splice\<close> at
  \<^verbatim>\<open>indexOf\<close> removes the first occurrence.
\<close>

definition sortNotesAtLevel ::
  "(NotePropsByIdDict \<Rightarrow> string \<Rightarrow> bool) \<Rightarrow> string \<Rightarrow> string list \<Rightarrow> NotePropsByIdDict \<Rightarrow> bool
     \<Rightarrow> TreeViewItemLabelTypeEnum option \<Rightarrow> Thrown + SortedNotes" where
  "sortNotesAtLevel readsAsPath TAGS_HIERARCHY_BASE noteIds noteDict reverse labelType =
     (let unsafeNoteIds = filter (\<lambda>noteId. \<not> lodashGetDefined readsAsPath noteDict noteId) noteIds;
          safeNoteIds = filter (\<lambda>noteId. lodashGetDefined readsAsPath noteDict noteId) noteIds;
          error = (if length unsafeNoteIds > 0 then Some (OmittedIds unsafeNoteIds) else None)
      in case sortBy (sortKey labelType noteDict) safeNoteIds of
           Inl e \<Rightarrow> Inl e
         | Inr out \<Rightarrow>
             (case findTagsHierarchy TAGS_HIERARCHY_BASE noteDict out of
                Inl e \<Rightarrow> Inl e
              | Inr maybeTagsHierarchy \<Rightarrow>
                  (let out' =
                     (case maybeTagsHierarchy of
                        Some t \<Rightarrow>
                          if t \<noteq> [] \<and> navOrderOf noteDict t = None then remove1 t out @ [t]
                          else out
                      | None \<Rightarrow> out)
                   in Inr \<lparr>data = (if reverse then rev out' else out'), error = error\<rparr>)))"

text \<open>Notes for the examples: a note with a path, a title and a \<^verbatim>\<open>nav_order\<close>.\<close>

definition tagNote :: "string \<Rightarrow> string \<Rightarrow> string \<Rightarrow> int option \<Rightarrow> NoteProps" where
  "tagNote i f t n =
     \<lparr>id' = i, fname = f, title = t, children = [],
      vault = \<lparr>name = None, fsPath = ''vault''\<rparr>,
      stub = False, schema = None,
      custom = Some \<lparr>nav_order = n, sort_order = None, nav_exclude = None\<rparr>, updated = 0\<rparr>"

text \<open>
  Two notes with the path \<open>tags\<close>, the first with an explicit order, and a note \<open>z\<close>.
\<close>

definition twoTagsNotes :: NotePropsByIdDict where
  "twoTagsNotes =
     [(''t1'', tagNote ''t1'' ''tags'' ''Tags'' (Some 1)),
      (''t2'', tagNote ''t2'' ''tags'' ''Tags'' None),
      (''z'', tagNote ''z'' ''z'' ''Zeta'' None)]"

text \<open>One note with the path \<open>tags\<close>, without an explicit order, and a note \<open>z\<close>.\<close>

definition oneTagsNotes :: NotePropsByIdDict where
  "oneTagsNotes =
     [(''t'', tagNote ''t'' ''tags'' ''Tags'' None),
      (''z'', tagNote ''z'' ''z'' ''Zeta'' None)]"

text \<open>The id names a note whose path is the root of the tags hierarchy.\<close>

definition isTagsRoot :: "string \<Rightarrow> NotePropsByIdDict \<Rightarrow> string \<Rightarrow> bool" where
  "isTagsRoot TAGS_HIERARCHY_BASE noteDict noteId =
     (case map_of noteDict noteId of
        None \<Rightarrow> False
      | Some note \<Rightarrow> fname note = TAGS_HIERARCHY_BASE)"

text \<open>No id of the list is read as a path: every id that is no key is unsafe.\<close>

definition plainIds :: "(NotePropsByIdDict \<Rightarrow> string \<Rightarrow> bool) \<Rightarrow> NotePropsByIdDict \<Rightarrow> string list \<Rightarrow> bool" where
  "plainIds readsAsPath noteDict noteIds =
     list_all (\<lambda>noteId. map_of noteDict noteId \<noteq> None \<or> \<not> readsAsPath noteDict noteId) noteIds"

text \<open>The parts of \<^verbatim>\<open>sortNotesAtLevel\<close>, named for the proofs.\<close>

definition bubbleDown :: "NotePropsByIdDict \<Rightarrow> string option \<Rightarrow> string list \<Rightarrow> string list" where
  "bubbleDown noteDict maybeTagsHierarchy out =
     (case maybeTagsHierarchy of
        Some t \<Rightarrow> if t \<noteq> [] \<and> navOrderOf noteDict t = None then remove1 t out @ [t] else out
      | None \<Rightarrow> out)"

definition safeNoteIdsOf ::
  "(NotePropsByIdDict \<Rightarrow> string \<Rightarrow> bool) \<Rightarrow> NotePropsByIdDict \<Rightarrow> string list \<Rightarrow> string list" where
  "safeNoteIdsOf readsAsPath noteDict noteIds =
     filter (\<lambda>noteId. lodashGetDefined readsAsPath noteDict noteId) noteIds"

definition omittedOf ::
  "(NotePropsByIdDict \<Rightarrow> string \<Rightarrow> bool) \<Rightarrow> NotePropsByIdDict \<Rightarrow> string list
     \<Rightarrow> DendronError option" where
  "omittedOf readsAsPath noteDict noteIds =
     (let unsafeNoteIds = filter (\<lambda>noteId. \<not> lodashGetDefined readsAsPath noteDict noteId) noteIds
      in if length unsafeNoteIds > 0 then Some (OmittedIds unsafeNoteIds) else None)"

lemma own_key: "map_of d i \<noteq> None \<Longrightarrow> \<exists>n. propertyOf (map_of d) i = Own n"
  by (auto simp: propertyOf_def)

lemma findTags_safe:
  "\<forall>i \<in> set xs. map_of d i \<noteq> None
   \<Longrightarrow> \<exists>r. findTagsHierarchy T d xs = Inr r \<and> (\<forall>t. r = Some t \<longrightarrow> t \<in> set xs)"
  by (induction xs) (auto simp: propertyOf_def split: option.splits)

lemma findTags_only:
  assumes "\<forall>i \<in> set xs. map_of d i \<noteq> None"
    and "\<forall>i \<in> set xs. isTagsRoot T d i \<longrightarrow> i = t"
    and "t \<in> set xs" and "isTagsRoot T d t"
  shows "findTagsHierarchy T d xs = Inr (Some t)"
  using assms(1-3)
proof (induction xs)
  case Nil
  then show ?case by simp
next
  case (Cons i xs)
  from Cons.prems(1) obtain n where n: "map_of d i = Some n" by auto
  then have p: "propertyOf (map_of d) i = Own n" by (rule propertyOf_Some)
  show ?case
  proof (cases "fname n = T")
    case True
    with n have "isTagsRoot T d i" by (simp add: isTagsRoot_def)
    with Cons.prems(2) have "i = t" by simp
    with p True show ?thesis by simp
  next
    case False
    with n have "\<not> isTagsRoot T d i" by (simp add: isTagsRoot_def)
    with assms(4) have "t \<noteq> i" by blast
    with Cons.prems(3) have "t \<in> set xs" by simp
    with Cons.IH Cons.prems(1,2) have "findTagsHierarchy T d xs = Inr (Some t)" by simp
    with p False show ?thesis by simp
  qed
qed

lemma criteriaOf_elements: "criteriaOf f xs = Inr ks \<Longrightarrow> map snd ks = xs"
  by (induction xs arbitrary: ks) (auto split: sum.splits)

lemma criteriaOf_returns:
  "\<forall>x \<in> set xs. \<exists>k. f x = Inr k \<Longrightarrow> \<exists>ks. criteriaOf f xs = Inr ks"
  by (induction xs) auto

lemma mset_sortBy: "sortBy f xs = Inr out \<Longrightarrow> mset out = mset xs"
proof -
  assume a: "sortBy f xs = Inr out"
  then obtain ks where ks: "criteriaOf f xs = Inr ks" and out: "out = map snd (sort_key fst ks)"
    by (auto simp: sortBy_def split: sum.splits)
  have "mset out = mset (map snd ks)"
    unfolding out mset_map by simp
  with criteriaOf_elements [OF ks] show ?thesis by simp
qed

lemma sortBy_returns:
  "\<forall>x \<in> set xs. \<exists>k. f x = Inr k \<Longrightarrow> \<exists>out. sortBy f xs = Inr out"
  using criteriaOf_returns [of xs f] by (auto simp: sortBy_def)

lemma sortKey_own: "map_of d i \<noteq> None \<Longrightarrow> \<exists>k. sortKey labelType d i = Inr k"
  by (auto simp: sortKey_def labelOf_def propertyOf_def)

lemma sortNotesAtLevel_eq:
  assumes "sortBy (sortKey labelType noteDict) (safeNoteIdsOf P noteDict noteIds) = Inr out"
    and "findTagsHierarchy T noteDict out = Inr r"
  shows "sortNotesAtLevel P T noteIds noteDict reverse labelType =
           Inr \<lparr>data = (if reverse then rev (bubbleDown noteDict r out)
                        else bubbleDown noteDict r out),
                error = omittedOf P noteDict noteIds\<rparr>"
  using assms
  unfolding sortNotesAtLevel_def bubbleDown_def safeNoteIdsOf_def omittedOf_def Let_def
  by simp

lemma safeNoteIdsOf_keys:
  assumes "plainIds P d noteIds"
  shows "safeNoteIdsOf P d noteIds = filter (\<lambda>noteId. noteId \<in> fst ` set d) noteIds"
  unfolding safeNoteIdsOf_def
proof (rule filter_cong)
  show "noteIds = noteIds" ..
next
  fix x assume "x \<in> set noteIds"
  with assms have "map_of d x \<noteq> None \<or> \<not> P d x"
    by (simp add: plainIds_def list_all_iff)
  then show "lodashGetDefined P d x = (x \<in> fst ` set d)"
    by (auto simp: lodashGetDefined_def map_of_eq_None_iff)
qed

lemma safeNoteIdsOf_present:
  assumes "plainIds P d noteIds"
  shows "\<forall>i \<in> set (safeNoteIdsOf P d noteIds). map_of d i \<noteq> None"
  unfolding safeNoteIdsOf_keys [OF assms] by (simp add: map_of_eq_None_iff)

lemma mset_bubbleDown:
  "\<forall>t. r = Some t \<longrightarrow> t \<in> set out \<Longrightarrow> mset (bubbleDown d r out) = mset out"
  by (cases r) (simp_all add: bubbleDown_def)

lemma sortNotesAtLevel_returns:
  assumes "plainIds P noteDict noteIds"
  shows "\<exists>out r ds. sortBy (sortKey labelType noteDict) (safeNoteIdsOf P noteDict noteIds) = Inr out
     \<and> findTagsHierarchy T noteDict out = Inr r
     \<and> ds = bubbleDown noteDict r out
     \<and> mset out = mset (safeNoteIdsOf P noteDict noteIds)
     \<and> mset ds = mset (safeNoteIdsOf P noteDict noteIds)
     \<and> sortNotesAtLevel P T noteIds noteDict reverse labelType =
          Inr \<lparr>data = (if reverse then rev ds else ds), error = omittedOf P noteDict noteIds\<rparr>"
proof -
  define safe where "safe = safeNoteIdsOf P noteDict noteIds"
  have present: "\<forall>i \<in> set safe. map_of noteDict i \<noteq> None"
    using safeNoteIdsOf_present [OF assms] by (simp add: safe_def)
  then have "\<forall>i \<in> set safe. \<exists>k. sortKey labelType noteDict i = Inr k"
    using sortKey_own by blast
  from sortBy_returns [OF this]
  obtain out where out: "sortBy (sortKey labelType noteDict) safe = Inr out" by blast
  have m: "mset out = mset safe" using out by (rule mset_sortBy)
  then have "set out = set safe" by (rule mset_eq_setD)
  with present have "\<forall>i \<in> set out. map_of noteDict i \<noteq> None" by simp
  from findTags_safe [OF this]
  obtain r where r: "findTagsHierarchy T noteDict out = Inr r" "\<forall>t. r = Some t \<longrightarrow> t \<in> set out"
    by blast
  have md: "mset (bubbleDown noteDict r out) = mset safe"
    using mset_bubbleDown [OF r(2), of noteDict] m by simp
  have eq: "sortNotesAtLevel P T noteIds noteDict reverse labelType =
      Inr \<lparr>data = (if reverse then rev (bubbleDown noteDict r out) else bubbleDown noteDict r out),
           error = omittedOf P noteDict noteIds\<rparr>"
    using sortNotesAtLevel_eq [of labelType noteDict P noteIds out T r reverse] out r(1)
    by (simp only: safe_def)
  show ?thesis
  proof (intro exI conjI)
    show "sortBy (sortKey labelType noteDict) (safeNoteIdsOf P noteDict noteIds) = Inr out"
      using out by (simp only: safe_def)
    show "findTagsHierarchy T noteDict out = Inr r" by (rule r(1))
    show "bubbleDown noteDict r out = bubbleDown noteDict r out" ..
    show "mset out = mset (safeNoteIdsOf P noteDict noteIds)" using m by (simp only: safe_def)
    show "mset (bubbleDown noteDict r out) = mset (safeNoteIdsOf P noteDict noteIds)"
      using md by (simp only: safe_def)
    show "sortNotesAtLevel P T noteIds noteDict reverse labelType =
      Inr \<lparr>data = (if reverse then rev (bubbleDown noteDict r out) else bubbleDown noteDict r out),
           error = omittedOf P noteDict noteIds\<rparr>" by (rule eq)
  qed
qed

text \<open>
  When no input id is read as a path, \<^verbatim>\<open>sortNotesAtLevel\<close> returns, and its data is a
  permutation of the input ids that are keys of the dictionary.
\<close>

lemma sortNotesAtLevel_permutation:
  assumes "plainIds P noteDict noteIds"
  shows "\<exists>res. sortNotesAtLevel P T noteIds noteDict reverse labelType = Inr res
     \<and> mset (data res) = mset (filter (\<lambda>noteId. noteId \<in> fst ` set noteDict) noteIds)"
proof -
  obtain ds where ds: "mset ds = mset (safeNoteIdsOf P noteDict noteIds)"
    and eq: "sortNotesAtLevel P T noteIds noteDict reverse labelType =
          Inr \<lparr>data = (if reverse then rev ds else ds), error = omittedOf P noteDict noteIds\<rparr>"
    using sortNotesAtLevel_returns [OF assms, of labelType T reverse] by blast
  define res where
    "res = \<lparr>data = (if reverse then rev ds else ds), error = omittedOf P noteDict noteIds\<rparr>"
  have "mset (data res) = mset (safeNoteIdsOf P noteDict noteIds)"
    using ds by (simp add: res_def)
  then have "mset (data res) = mset (filter (\<lambda>noteId. noteId \<in> fst ` set noteDict) noteIds)"
    by (simp only: safeNoteIdsOf_keys [OF assms])
  moreover have "sortNotesAtLevel P T noteIds noteDict reverse labelType = Inr res"
    using eq by (simp only: res_def)
  ultimately show ?thesis by blast
qed

text \<open>A note \<open>a\<close> and a note \<open>t\<close> with the path \<open>tags\<close>; \<open>a.title\<close> is the id of no note.\<close>

definition pathNotes :: NotePropsByIdDict where
  "pathNotes =
     [(''a'', tagNote ''a'' ''a'' ''Alpha'' None),
      (''t'', tagNote ''t'' ''tags'' ''Tags'' None)]"

text \<open>
  C10: the data of \<^verbatim>\<open>sortNotesAtLevel\<close> is a permutation of the input ids that are keys of
  the dictionary. The code does not keep to this for an id that is no key but that
  \<^verbatim>\<open>_.get\<close> reads as a path to a value: \<open>a.title\<close> is no key, and \<^verbatim>\<open>_.get\<close> finds the title
  of the note \<open>a\<close>, so the id counts as safe. Alone, it makes \<^verbatim>\<open>find\<close> throw a
  \<^verbatim>\<open>TypeError\<close>, and no data is returned; after a tags note, which ends \<^verbatim>\<open>find\<close> early, it is
  returned in the data, and no error reports it.
\<close>

theorem C10_sortNotesAtLevel_path_id:
  "map_of pathNotes ''a.title'' = None
   \<and> sortNotesAtLevel twoSegmentPath ''tags'' [''a.title''] pathNotes False None = Inl TypeError
   \<and> sortNotesAtLevel twoSegmentPath ''tags'' [''t'', ''a.title''] pathNotes False None
       = Inr \<lparr>data = [''a.title'', ''t''], error = None\<rparr>"
  by code_simp

text \<open>
  C5 (as stated): when a tags-hierarchy-root note without an explicit order is among the
  inputs, it is the last element of the result and the first of the reversed result. The
  code bubbles down the first note with the tags path that \<^verbatim>\<open>find\<close> meets in the sorted
  list, and only if that one has no order. With a second tags note that has an order, the
  sort puts that one first, \<^verbatim>\<open>find\<close> returns it, nothing is moved, and the tags note
  without an order (\<open>t2\<close>) stays before \<open>z\<close>.
\<close>

theorem C5_sortNotesAtLevel_tags_counterexample:
  "''t2'' \<in> set [''z'', ''t2'', ''t1'']
   \<and> isTagsRoot ''tags'' twoTagsNotes ''t2''
   \<and> navOrderOf twoTagsNotes ''t2'' = None
   \<and> sortNotesAtLevel twoSegmentPath ''tags'' [''z'', ''t2'', ''t1''] twoTagsNotes False None
       = Inr \<lparr>data = [''t1'', ''t2'', ''z''], error = None\<rparr>
   \<and> sortNotesAtLevel twoSegmentPath ''tags'' [''z'', ''t2'', ''t1''] twoTagsNotes True None
       = Inr \<lparr>data = [''z'', ''t2'', ''t1''], error = None\<rparr>"
  by code_simp

lemma sortNotesAtLevel_reverse_law:
  "sortNotesAtLevel P T noteIds noteDict True labelType
     = map_sum (\<lambda>e. e) (\<lambda>res. res\<lparr>data := rev (data res)\<rparr>)
         (sortNotesAtLevel P T noteIds noteDict False labelType)"
  unfolding sortNotesAtLevel_def Let_def
  by (simp split: sum.splits)

lemma sortNotesAtLevel_tags_last:
  assumes plain: "plainIds P noteDict noteIds"
  shows "\<exists>ds e. sortNotesAtLevel P T noteIds noteDict False labelType = Inr \<lparr>data = ds, error = e\<rparr>
     \<and> sortNotesAtLevel P T noteIds noteDict True labelType = Inr \<lparr>data = rev ds, error = e\<rparr>
     \<and> (t \<in> set noteIds \<and> isTagsRoot T noteDict t \<and> navOrderOf noteDict t = None \<and> t \<noteq> []
          \<and> (\<forall>i \<in> set noteIds. isTagsRoot T noteDict i \<longrightarrow> i = t)
        \<longrightarrow> ds \<noteq> [] \<and> last ds = t \<and> hd (rev ds) = t)"
proof -
  obtain out r ds where
        out: "sortBy (sortKey labelType noteDict) (safeNoteIdsOf P noteDict noteIds) = Inr out"
    and r: "findTagsHierarchy T noteDict out = Inr r"
    and ds: "ds = bubbleDown noteDict r out"
    and m: "mset out = mset (safeNoteIdsOf P noteDict noteIds)"
    and f: "sortNotesAtLevel P T noteIds noteDict False labelType =
          Inr \<lparr>data = (if False then rev ds else ds), error = omittedOf P noteDict noteIds\<rparr>"
    using sortNotesAtLevel_returns [OF plain, of labelType T False]
    by blast
  have t: "sortNotesAtLevel P T noteIds noteDict True labelType =
          Inr \<lparr>data = (if True then rev ds else ds), error = omittedOf P noteDict noteIds\<rparr>"
    using sortNotesAtLevel_eq [OF out r, of True]
    by (simp only: ds)
  have set_eq: "set out = set (safeNoteIdsOf P noteDict noteIds)"
    using m by (rule mset_eq_setD)
  have safe_out: "\<forall>i \<in> set out. map_of noteDict i \<noteq> None"
    using safeNoteIdsOf_present [OF plain] set_eq by simp
  have set_out: "set out \<subseteq> set noteIds"
    using set_eq by (auto simp: safeNoteIdsOf_def)
  have tags: "ds \<noteq> [] \<and> last ds = t \<and> hd (rev ds) = t"
    if h: "t \<in> set noteIds" "isTagsRoot T noteDict t" "navOrderOf noteDict t = None" "t \<noteq> []"
      "\<forall>i \<in> set noteIds. isTagsRoot T noteDict i \<longrightarrow> i = t"
  proof -
    have "map_of noteDict t \<noteq> None"
      using h(2) by (auto simp: isTagsRoot_def split: option.splits)
    with h(1) have t_out: "t \<in> set out"
      by (simp add: set_eq safeNoteIdsOf_def lodashGetDefined_def)
    have only: "\<forall>i \<in> set out. isTagsRoot T noteDict i \<longrightarrow> i = t"
      using h(5) set_out by blast
    have "findTagsHierarchy T noteDict out = Inr (Some t)"
      by (rule findTags_only [OF safe_out only t_out h(2)])
    with r have "r = Some t" by simp
    with h(3,4) have "ds = remove1 t out @ [t]"
      by (simp add: ds bubbleDown_def)
    then show ?thesis by (simp add: hd_rev)
  qed
  show ?thesis
  proof (intro exI conjI impI)
    show "sortNotesAtLevel P T noteIds noteDict False labelType =
        Inr \<lparr>data = ds, error = omittedOf P noteDict noteIds\<rparr>"
      using f by simp
    show "sortNotesAtLevel P T noteIds noteDict True labelType =
        Inr \<lparr>data = rev ds, error = omittedOf P noteDict noteIds\<rparr>"
      using t by simp
  next
    assume h: "t \<in> set noteIds \<and> isTagsRoot T noteDict t \<and> navOrderOf noteDict t = None \<and> t \<noteq> []
          \<and> (\<forall>i \<in> set noteIds. isTagsRoot T noteDict i \<longrightarrow> i = t)"
    from h have c: "ds \<noteq> [] \<and> last ds = t \<and> hd (rev ds) = t"
      by (elim conjE) (rule tags, assumption+)
    show "ds \<noteq> []" using c by (rule conjunct1)
    show "last ds = t" using c by simp
    show "hd (rev ds) = t" using c by simp
  qed
qed

text \<open>
  C5 (amended): for every list of ids and every dictionary (with or without a tags note)
  the call with \<^verbatim>\<open>reverse: true\<close> returns what the call with \<^verbatim>\<open>reverse: false\<close> returns
  with the data reversed and the same error, and it throws when that call throws. When no
  input id is read as a path, an input id \<open>t\<close> names a tags-hierarchy-root note without an
  explicit order, \<open>t\<close> is not the empty id and \<open>t\<close> is the only input id that names a
  tags-hierarchy-root note, then both calls return and \<open>t\<close> is the last element of the
  non-reversed data and the first element of the reversed data.
\<close>

theorem C5_sortNotesAtLevel_reverse:
  "sortNotesAtLevel P T noteIds noteDict True labelType
     = map_sum (\<lambda>e. e) (\<lambda>res. res\<lparr>data := rev (data res)\<rparr>)
         (sortNotesAtLevel P T noteIds noteDict False labelType)
   \<and> (plainIds P noteDict noteIds
        \<and> t \<in> set noteIds \<and> isTagsRoot T noteDict t \<and> navOrderOf noteDict t = None \<and> t \<noteq> []
        \<and> (\<forall>i \<in> set noteIds. isTagsRoot T noteDict i \<longrightarrow> i = t)
      \<longrightarrow> (\<exists>ds e. sortNotesAtLevel P T noteIds noteDict False labelType
                      = Inr \<lparr>data = ds, error = e\<rparr>
               \<and> sortNotesAtLevel P T noteIds noteDict True labelType
                      = Inr \<lparr>data = rev ds, error = e\<rparr>
               \<and> ds \<noteq> [] \<and> last ds = t \<and> hd (rev ds) = t))"
proof (intro conjI impI)
  show "sortNotesAtLevel P T noteIds noteDict True labelType
     = map_sum (\<lambda>e. e) (\<lambda>res. res\<lparr>data := rev (data res)\<rparr>)
         (sortNotesAtLevel P T noteIds noteDict False labelType)"
    by (rule sortNotesAtLevel_reverse_law)
next
  assume h: "plainIds P noteDict noteIds
        \<and> t \<in> set noteIds \<and> isTagsRoot T noteDict t \<and> navOrderOf noteDict t = None \<and> t \<noteq> []
        \<and> (\<forall>i \<in> set noteIds. isTagsRoot T noteDict i \<longrightarrow> i = t)"
  then have plain: "plainIds P noteDict noteIds"
    and tags: "t \<in> set noteIds \<and> isTagsRoot T noteDict t \<and> navOrderOf noteDict t = None \<and> t \<noteq> []
        \<and> (\<forall>i \<in> set noteIds. isTagsRoot T noteDict i \<longrightarrow> i = t)"
    by simp_all
  from sortNotesAtLevel_tags_last [OF plain, of T labelType t]
  obtain ds e where
    "sortNotesAtLevel P T noteIds noteDict False labelType = Inr \<lparr>data = ds, error = e\<rparr>"
    "sortNotesAtLevel P T noteIds noteDict True labelType = Inr \<lparr>data = rev ds, error = e\<rparr>"
    "t \<in> set noteIds \<and> isTagsRoot T noteDict t \<and> navOrderOf noteDict t = None \<and> t \<noteq> []
        \<and> (\<forall>i \<in> set noteIds. isTagsRoot T noteDict i \<longrightarrow> i = t)
     \<longrightarrow> ds \<noteq> [] \<and> last ds = t \<and> hd (rev ds) = t"
    by blast
  with tags show "\<exists>ds e. sortNotesAtLevel P T noteIds noteDict False labelType
                      = Inr \<lparr>data = ds, error = e\<rparr>
               \<and> sortNotesAtLevel P T noteIds noteDict True labelType
                      = Inr \<lparr>data = rev ds, error = e\<rparr>
               \<and> ds \<noteq> [] \<and> last ds = t \<and> hd (rev ds) = t"
    by blast
qed

theorem C5_sortNotesAtLevel_reverse_witness:
  "(plainIds twoSegmentPath oneTagsNotes [''t'', ''gone'', ''z'']
      \<and> ''t'' \<in> set [''t'', ''gone'', ''z''] \<and> isTagsRoot ''tags'' oneTagsNotes ''t''
      \<and> navOrderOf oneTagsNotes ''t'' = None \<and> ''t'' \<noteq> []
      \<and> \<not> isTagsRoot ''tags'' oneTagsNotes ''gone'' \<and> \<not> isTagsRoot ''tags'' oneTagsNotes ''z'')
   \<and> (\<exists>ds e. sortNotesAtLevel twoSegmentPath ''tags'' [''t'', ''gone'', ''z''] oneTagsNotes False None
                 = Inr \<lparr>data = ds, error = e\<rparr>
         \<and> sortNotesAtLevel twoSegmentPath ''tags'' [''t'', ''gone'', ''z''] oneTagsNotes True None
                 = Inr \<lparr>data = rev ds, error = e\<rparr>
         \<and> ds \<noteq> [] \<and> last ds = ''t'' \<and> hd (rev ds) = ''t'')"
proof -
  have p: "plainIds twoSegmentPath oneTagsNotes [''t'', ''gone'', ''z'']"
    by code_simp
  have facts: "''t'' \<in> set [''t'', ''gone'', ''z''] \<and> isTagsRoot ''tags'' oneTagsNotes ''t''
      \<and> navOrderOf oneTagsNotes ''t'' = None \<and> ''t'' \<noteq> []
      \<and> \<not> isTagsRoot ''tags'' oneTagsNotes ''gone'' \<and> \<not> isTagsRoot ''tags'' oneTagsNotes ''z''"
    by (simp add: isTagsRoot_def navOrderOf_def oneTagsNotes_def tagNote_def)
  with p have h: "plainIds twoSegmentPath oneTagsNotes [''t'', ''gone'', ''z'']
      \<and> ''t'' \<in> set [''t'', ''gone'', ''z''] \<and> isTagsRoot ''tags'' oneTagsNotes ''t''
      \<and> navOrderOf oneTagsNotes ''t'' = None \<and> ''t'' \<noteq> []
      \<and> (\<forall>i \<in> set [''t'', ''gone'', ''z'']. isTagsRoot ''tags'' oneTagsNotes i \<longrightarrow> i = ''t'')"
    by simp
  from C5_sortNotesAtLevel_reverse
    [of twoSegmentPath "''tags''" "[''t'', ''gone'', ''z'']" oneTagsNotes None "''t''"]
  have "plainIds twoSegmentPath oneTagsNotes [''t'', ''gone'', ''z'']
      \<and> ''t'' \<in> set [''t'', ''gone'', ''z''] \<and> isTagsRoot ''tags'' oneTagsNotes ''t''
      \<and> navOrderOf oneTagsNotes ''t'' = None \<and> ''t'' \<noteq> []
      \<and> (\<forall>i \<in> set [''t'', ''gone'', ''z'']. isTagsRoot ''tags'' oneTagsNotes i \<longrightarrow> i = ''t'')
    \<longrightarrow> (\<exists>ds e. sortNotesAtLevel twoSegmentPath ''tags'' [''t'', ''gone'', ''z''] oneTagsNotes False None
                 = Inr \<lparr>data = ds, error = e\<rparr>
         \<and> sortNotesAtLevel twoSegmentPath ''tags'' [''t'', ''gone'', ''z''] oneTagsNotes True None
                 = Inr \<lparr>data = rev ds, error = e\<rparr>
         \<and> ds \<noteq> [] \<and> last ds = ''t'' \<and> hd (rev ds) = ''t'')"
    by (rule conjunct2)
  from this h have "\<exists>ds e. sortNotesAtLevel twoSegmentPath ''tags'' [''t'', ''gone'', ''z''] oneTagsNotes False None
                 = Inr \<lparr>data = ds, error = e\<rparr>
         \<and> sortNotesAtLevel twoSegmentPath ''tags'' [''t'', ''gone'', ''z''] oneTagsNotes True None
                 = Inr \<lparr>data = rev ds, error = e\<rparr>
         \<and> ds \<noteq> [] \<and> last ds = ''t'' \<and> hd (rev ds) = ''t''"
    by (rule mp)
  with p facts show ?thesis by blast
qed

subsection \<open>Sidebars: configuration, resolved items, generated items\<close>

text \<open>
  The link of a category is always a link to a note. An item of the configuration is a
  note, a category or an autogeneration directive; a resolved item is a note or a category.
  The label of an item is a string in both (\<^verbatim>\<open>v.string()\<close>).

  The id of an item is a string by its TypeScript type. The items that the resolver
  returns hold what \<^verbatim>\<open>resolveItemId\<close> returned, and that can be \<^verbatim>\<open>undefined\<close>: the type of
  the id is a parameter of the items, \<open>string\<close> for the items of the generator and of the
  tree menu, \<open>string option\<close> for the items of the resolver.
\<close>

datatype 'i SidebarItemCategoryLink = NoteLink 'i

datatype 'i SidebarItem =
    NoteItem 'i string
  | CategoryItem string "'i SidebarItem list" "'i SidebarItemCategoryLink"

datatype SidebarItemConfig =
    NoteConfig string string
  | CategoryConfig string "SidebarItemConfig list" "string SidebarItemCategoryLink"
  | AutogeneratedConfig string

type_synonym SidebarsConfig = "(string \<times> SidebarItemConfig list) list"

type_synonym Sidebars = "(string \<times> string SidebarItem list) list"

text \<open>
  \<^verbatim>\<open>WithPosition<SidebarItem>\<close>: the items that \<^verbatim>\<open>generateSidebar\<close> builds carry
  \<^verbatim>\<open>position\<close>, \<^verbatim>\<open>fname\<close> (here \<open>pfname\<close>) and \<^verbatim>\<open>reverse\<close>, at every level.
\<close>

record Positional =
  position :: "int option"
  pfname :: string
  reverse :: bool

datatype WithPosition =
    NoteWithPosition string string Positional
  | CategoryWithPosition string "WithPosition list" "string SidebarItemCategoryLink" Positional

definition ROOT_KEYWORD :: string where
  "ROOT_KEYWORD = ''*''"

subsection \<open>The default generator of an autogenerated item\<close>

text \<open>
  \<^verbatim>\<open>findHierarchySources\<close>: for the root keyword the ids of the notes, in the order of
  \<^verbatim>\<open>Object.values\<close>, whose path is not \<open>root\<close> and has one segment; otherwise the children
  of the note of the item, and an error when \<^verbatim>\<open>notesById[item.id]\<close> is \<^verbatim>\<open>undefined\<close>. For the
  name of an inherited member the test \<^verbatim>\<open>!note\<close> fails, \<^verbatim>\<open>note.children\<close> is \<^verbatim>\<open>undefined\<close>,
  and the only use of that value, \<^verbatim>\<open>noteIds.map\<close> in \<^verbatim>\<open>generateSidebar\<close>, throws a
  \<^verbatim>\<open>TypeError\<close>: the generator throws it, and it is the result here.
\<close>

definition findHierarchySources :: "NotePropsByIdDict \<Rightarrow> string \<Rightarrow> Thrown + string list" where
  "findHierarchySources notesById itemId =
     (if itemId = ROOT_KEYWORD
      then Inr (map id'
             (filter (\<lambda>note.
                  if fname note = ''root'' then False
                  else if length (split CHR ''.'' (fname note)) = 1 then True
                  else False)
                (map snd notesById)))
      else (case propertyOf (map_of notesById) itemId of
              Undefined \<Rightarrow> Inl (Dendron (DoesNotExist itemId))
            | Inherited member \<Rightarrow> Inl TypeError
            | Own note \<Rightarrow> Inr (children note)))"

definition positionalProps :: "NoteProps \<Rightarrow> Positional" where
  "positionalProps note =
     \<lparr>position = nav_order (getPublishFM note),
      pfname = fname note,
      reverse = (sort_order (getPublishFM note) = Some ''reverse'')\<rparr>"

text \<open>
  \<^verbatim>\<open>generateSidebar\<close>. The callback reads \<^verbatim>\<open>notesById[noteId]\<close>, passes it to
  \<^verbatim>\<open>getPublishFM\<close> and destructures \<^verbatim>\<open>children\<close> from it; for an id without a note this
  throws a \<^verbatim>\<open>TypeError\<close>, before the test \<^verbatim>\<open>if (!note) return undefined\<close> is reached. For
  the name of an inherited member \<^verbatim>\<open>children\<close> is \<^verbatim>\<open>undefined\<close>, and \<^verbatim>\<open>children.length\<close>
  throws a \<^verbatim>\<open>TypeError\<close>. A
  note without children gives a note item, a note with children a category whose items
  are generated from the children. \<^verbatim>\<open>filter(Boolean)\<close> drops the \<^verbatim>\<open>undefined\<close> entries.
  The recursion follows the children of the notes, so it takes fuel.
\<close>

fun generateSidebar ::
  "nat \<Rightarrow> NotePropsByIdDict \<Rightarrow> string list \<Rightarrow> (Thrown + WithPosition list) option" where
  "generateSidebar 0 notesById noteIds = None"
| "generateSidebar (Suc fuel) notesById noteIds =
     map_option (map_sum (\<lambda>e. e) (List.map_filter (\<lambda>maybeSidebarItem. maybeSidebarItem)))
       (collect (map (\<lambda>noteId.
          case propertyOf (map_of notesById) noteId of
            Undefined \<Rightarrow> Some (Inl TypeError)
          | Inherited member \<Rightarrow> Some (Inl TypeError)
          | Own note \<Rightarrow>
              if children note = []
              then Some (Inr (Some (NoteWithPosition (id' note) (title note) (positionalProps note))))
              else (case generateSidebar fuel notesById (children note) of
                      None \<Rightarrow> None
                    | Some (Inl e) \<Rightarrow> Some (Inl e)
                    | Some (Inr items) \<Rightarrow>
                        Some (Inr (Some (CategoryWithPosition (title note) items
                                     (NoteLink (id' note)) (positionalProps note))))))
          noteIds))"

text \<open>
  \<^verbatim>\<open>sortItems\<close>. \<open>processedSidebarItem\<close> is the callback of the first \<^verbatim>\<open>map\<close>: the item
  with its hints, a category with its items sorted and, under \<^verbatim>\<open>reverse\<close>, reversed. Then
  \<^verbatim>\<open>_.sortBy(processedSidebarItems, ["position", "fname"])\<close>, and the last \<^verbatim>\<open>map\<close> drops
  the hints.
\<close>

fun sortItems :: "WithPosition list \<Rightarrow> string SidebarItem list"
  and processedSidebarItem :: "WithPosition \<Rightarrow> Positional \<times> string SidebarItem" where
  "sortItems sidebarItems =
     map snd
       (sort_key (\<lambda>(hints, item). (undefinedLast 0 (position hints), pfname hints))
          (map processedSidebarItem sidebarItems))"
| "processedSidebarItem (NoteWithPosition i label hints) = (hints, NoteItem i label)"
| "processedSidebarItem (CategoryWithPosition label items link hints) =
     (hints,
      CategoryItem label (if reverse hints then rev (sortItems items) else sortItems items) link)"

definition defaultSidebarItemsGenerator ::
  "nat \<Rightarrow> NotePropsByIdDict \<Rightarrow> string \<Rightarrow> (Thrown + string SidebarItem list) option" where
  "defaultSidebarItemsGenerator fuel notesById itemId =
     (case findHierarchySources notesById itemId of
        Inl e \<Rightarrow> Some (Inl e)
      | Inr hierarchySource \<Rightarrow>
          map_option (map_sum (\<lambda>e. e) sortItems) (generateSidebar fuel notesById hierarchySource))"

subsection \<open>Resolving the references of a sidebar\<close>

text \<open>
  \<^verbatim>\<open>DuplicateNoteBehavior\<close>: the payload is a list of vault names or names one vault.
\<close>

datatype DuplicateNoteBehaviorPayload =
    VaultNames "string list"
  | UseVault "DVault option"

record DuplicateNoteBehavior =
  payload :: DuplicateNoteBehaviorPayload

text \<open>\<^verbatim>\<open>[...new Set(xs)]\<close>: the elements in the order of their first occurrence.\<close>

fun uniqueInOrder :: "'a list \<Rightarrow> 'a list" where
  "uniqueInOrder [] = []"
| "uniqueInOrder (x # xs) = x # uniqueInOrder (filter (\<lambda>y. y \<noteq> x) xs)"

definition getPriorityVaults :: "DuplicateNoteBehavior option \<Rightarrow> string list option" where
  "getPriorityVaults duplicateNoteBehavior =
     (case duplicateNoteBehavior of
        None \<Rightarrow> None
      | Some behavior \<Rightarrow>
          (case payload behavior of
             VaultNames names \<Rightarrow> Some (uniqueInOrder names)
           | UseVault maybeVault \<Rightarrow>
               (case maybeVault of
                  None \<Rightarrow> None
                | Some preferredVault \<Rightarrow>
                    (case name preferredVault of
                       None \<Rightarrow> None
                     | Some vaultName \<Rightarrow> if vaultName = [] then None else Some [vaultName]))))"

text \<open>\<^verbatim>\<open>note.vault.name ?? note.vault.fsPath\<close>\<close>

definition vaultKey :: "NoteProps \<Rightarrow> string" where
  "vaultKey note = (case name (vault note) of Some n \<Rightarrow> n | None \<Rightarrow> fsPath (vault note))"

text \<open>
  \<^verbatim>\<open>possibleNotes\<close> when \<^verbatim>\<open>notes[sidebarId]\<close> is a note or \<^verbatim>\<open>undefined\<close>: the note with that
  id, or else the notes with that path, in the order of \<^verbatim>\<open>Object.values\<close>.
\<close>

definition possibleNotesOf :: "NotePropsByIdDict \<Rightarrow> string \<Rightarrow> NoteProps list" where
  "possibleNotesOf notes sidebarId =
     (case map_of notes sidebarId of
        Some note \<Rightarrow> [note]
      | None \<Rightarrow> filter (\<lambda>note. fname note = sidebarId) (map snd notes))"

text \<open>
  \<^verbatim>\<open>resolveItemId\<close>. \<^verbatim>\<open>new Map(pairs)\<close> keeps the last note of each vault key, hence the
  \<open>rev\<close>; \<^verbatim>\<open>.at(0)\<close> of the names that the map has gives the preferred note, and
  \<^verbatim>\<open>|| possibleNotes.at(0)\<close> the first note otherwise.

  For the name of an inherited member, \<^verbatim>\<open>notes[sidebarId]\<close> is that member and \<^verbatim>\<open>??\<close> keeps
  it: \<^verbatim>\<open>possibleNotes\<close> is the list of the member alone, whatever notes have that path.
  There are no duplicates, \<^verbatim>\<open>note\<close> is the member, the test \<^verbatim>\<open>!note\<close> fails, and the
  result \<^verbatim>\<open>note.id\<close> is \<^verbatim>\<open>undefined\<close>, here \<open>None\<close>.
\<close>

definition resolveItemId ::
  "NotePropsByIdDict \<Rightarrow> DuplicateNoteBehavior option \<Rightarrow> string \<Rightarrow> Thrown + string option" where
  "resolveItemId notes duplicateNoteBehavior sidebarId =
     (case propertyOf (map_of notes) sidebarId of
        Inherited member \<Rightarrow> Inr None
      | _ \<Rightarrow>
     (let possibleNotes = possibleNotesOf notes sidebarId;
          hasDuplicates = length possibleNotes > 1;
          byVault = map_of (rev (map (\<lambda>note. (vaultKey note, note)) possibleNotes));
          preferred =
            (if hasDuplicates
             then (case getPriorityVaults duplicateNoteBehavior of
                     None \<Rightarrow> None
                   | Some vaultNames \<Rightarrow>
                       (case filter (\<lambda>vaultName. byVault vaultName \<noteq> None) vaultNames of
                          [] \<Rightarrow> None
                        | vaultName # _ \<Rightarrow> byVault vaultName))
             else None);
          note = (case preferred of
                    Some n \<Rightarrow> Some n
                  | None \<Rightarrow> (case possibleNotes of [] \<Rightarrow> None | n # _ \<Rightarrow> Some n))
      in case note of
           None \<Rightarrow> Inl (Dendron (DoesNotExist sidebarId))
         | Some n \<Rightarrow> Inr (Some (id' n))))"

text \<open>
  The id of a resolved autogenerated item as the generator reads it: in the comparison
  with the root keyword, as the key of \<^verbatim>\<open>notesById[item.id]\<close> and in the message of the
  error, \<^verbatim>\<open>undefined\<close> is the string \<open>undefined\<close>.
\<close>

definition idKey :: "string option \<Rightarrow> string" where
  "idKey resolved = (case resolved of None \<Rightarrow> ''undefined'' | Some noteId \<Rightarrow> noteId)"

text \<open>
  \<^verbatim>\<open>processItem\<close>, with \<^verbatim>\<open>resolveItem\<close> inlined: the reference of the item is resolved
  first, then a category processes its items in order, an autogenerated item calls the
  generator, a note is returned as it is. The items of the generator hold ids of notes.
\<close>

fun processItem ::
  "nat \<Rightarrow> NotePropsByIdDict \<Rightarrow> DuplicateNoteBehavior option \<Rightarrow> SidebarItemConfig
     \<Rightarrow> (Thrown + string option SidebarItem list) option" where
  "processItem fuel notes dnb (CategoryConfig label items (NoteLink linkId)) =
     (case resolveItemId notes dnb linkId of
        Inl e \<Rightarrow> Some (Inl e)
      | Inr resolved \<Rightarrow>
          (case collect (map (processItem fuel notes dnb) items) of
             None \<Rightarrow> None
           | Some (Inl e) \<Rightarrow> Some (Inl e)
           | Some (Inr processed) \<Rightarrow>
               Some (Inr [CategoryItem label (concat processed) (NoteLink resolved)])))"
| "processItem fuel notes dnb (AutogeneratedConfig itemId) =
     (case (if itemId = ROOT_KEYWORD then Inr (Some itemId) else resolveItemId notes dnb itemId) of
        Inl e \<Rightarrow> Some (Inl e)
      | Inr resolved \<Rightarrow>
          map_option (map_sum (\<lambda>e. e) (map (map_SidebarItem Some)))
            (defaultSidebarItemsGenerator fuel notes (idKey resolved)))"
| "processItem fuel notes dnb (NoteConfig itemId label) =
     (case resolveItemId notes dnb itemId of
        Inl e \<Rightarrow> Some (Inl e)
      | Inr resolved \<Rightarrow> Some (Inr [NoteItem resolved label]))"

text \<open>
  \<^verbatim>\<open>safeProcessItem\<close>: \<^verbatim>\<open>fromThrowable\<close> keeps a \<^verbatim>\<open>DendronError\<close> and turns anything else
  that was thrown into the error of status \<^verbatim>\<open>INVALID_CONFIG\<close>.
\<close>

definition safeProcessItem ::
  "nat \<Rightarrow> NotePropsByIdDict \<Rightarrow> DuplicateNoteBehavior option \<Rightarrow> SidebarItemConfig
     \<Rightarrow> (DendronError + string option SidebarItem list) option" where
  "safeProcessItem fuel notes dnb item =
     (case processItem fuel notes dnb item of
        None \<Rightarrow> None
      | Some (Inl (Dendron e)) \<Rightarrow> Some (Inl e)
      | Some (Inl TypeError) \<Rightarrow> Some (Inl InvalidConfig)
      | Some (Inr items) \<Rightarrow> Some (Inr items))"

text \<open>
  \<^verbatim>\<open>Result.combine\<close> over results that were all computed before (\<^verbatim>\<open>xs.map(f)\<close> has run to
  its end): the first error, or all the values.
\<close>

fun combine :: "('e + 'a) option list \<Rightarrow> ('e + 'a list) option" where
  "combine [] = Some (Inr [])"
| "combine (r # rs) =
     (case r of
        None \<Rightarrow> None
      | Some x \<Rightarrow>
          (case combine rs of
             None \<Rightarrow> None
           | Some rest \<Rightarrow>
               (case x of
                  Inl e \<Rightarrow> Some (Inl e)
                | Inr v \<Rightarrow> (case rest of Inl e \<Rightarrow> Some (Inl e) | Inr vs \<Rightarrow> Some (Inr (v # vs))))))"

definition processSiderbar ::
  "nat \<Rightarrow> NotePropsByIdDict \<Rightarrow> DuplicateNoteBehavior option \<Rightarrow> SidebarItemConfig list
     \<Rightarrow> (DendronError + string option SidebarItem list) option" where
  "processSiderbar fuel notes dnb sidebar =
     map_option (map_sum (\<lambda>e. e) concat) (combine (map (safeProcessItem fuel notes dnb) sidebar))"

text \<open>
  \<^verbatim>\<open>processSidebars\<close>: the result of parsing is passed on when it is an error; otherwise
  every sidebar is processed and the entries are combined.
\<close>

definition processSidebars ::
  "nat \<Rightarrow> DendronError + SidebarsConfig \<Rightarrow> NotePropsByIdDict \<Rightarrow> DuplicateNoteBehavior option
     \<Rightarrow> (DendronError + (string \<times> string option SidebarItem list) list) option" where
  "processSidebars fuel sidebarsResult notes dnb =
     (case sidebarsResult of
        Inl e \<Rightarrow> Some (Inl e)
      | Inr sidebars \<Rightarrow>
          combine (map (\<lambda>(key, sidebar).
                     case processSiderbar fuel notes dnb sidebar of
                       None \<Rightarrow> None
                     | Some (Inl e) \<Rightarrow> Some (Inl e)
                     | Some (Inr v) \<Rightarrow> Some (Inr (key, v)))
                   sidebars))"

subsection \<open>Properties of the generator\<close>

text \<open>Examples: the notes \<open>root\<close>, \<open>b\<close>, \<open>a\<close> and \<open>a.x\<close>, and a note \<open>p\<close> whose child \<open>q\<close> is missing.\<close>

definition rootNotes :: NotePropsByIdDict where
  "rootNotes =
     [(''root'', (plainNote ''root'' ''root'' [''b'', ''a'']) \<lparr>title := ''Root''\<rparr>),
      (''b'', (plainNote ''b'' ''b'' []) \<lparr>title := ''B''\<rparr>),
      (''a'', (plainNote ''a'' ''a'' [''a.x'']) \<lparr>title := ''A''\<rparr>),
      (''a.x'', (plainNote ''a.x'' ''a.x'' []) \<lparr>title := ''X''\<rparr>)]"

definition danglingNotes :: NotePropsByIdDict where
  "danglingNotes = [(''p'', plainNote ''p'' ''p'' [''q''])]"

text \<open>
  The order of siblings in words: an item with a position comes before an item without
  one; two positions are compared as numbers; otherwise the paths decide.
\<close>

definition siblingOrder :: "Positional \<Rightarrow> Positional \<Rightarrow> bool" where
  "siblingOrder h1 h2 =
     (case (position h1, position h2) of
        (Some p, Some q) \<Rightarrow> p < q \<or> (p = q \<and> pfname h1 \<le> pfname h2)
      | (Some p, None) \<Rightarrow> True
      | (None, Some q) \<Rightarrow> False
      | (None, None) \<Rightarrow> pfname h1 \<le> pfname h2)"

text \<open>The hints that an item carries, read from the item.\<close>

fun hintsOf :: "WithPosition \<Rightarrow> Positional" where
  "hintsOf (NoteWithPosition i label hints) = hints"
| "hintsOf (CategoryWithPosition label items link hints) = hints"

text \<open>
  The resolved item of an item with hints in words: the note, or the category whose items
  are the sorted items of the category, reversed as a whole when the hints of the
  category ask for the reverse order. A resolved item has no field for a hint.
\<close>

fun resolvedOf :: "WithPosition \<Rightarrow> string SidebarItem" where
  "resolvedOf (NoteWithPosition i label hints) = NoteItem i label"
| "resolvedOf (CategoryWithPosition label items link hints) =
     CategoryItem label (if reverse hints then rev (sortItems items) else sortItems items) link"

definition siblingKey :: "Positional \<Rightarrow> (bool \<times> int) \<times> string" where
  "siblingKey hints = (undefinedLast 0 (position hints), pfname hints)"

lemma siblingKey_le:
  "siblingKey a \<le> siblingKey b \<Longrightarrow> siblingOrder a b"
  by (auto simp: siblingKey_def siblingOrder_def undefinedLast_def less_eq_prod_def less_prod_def
           split: option.splits)

lemma sorted_siblingOrder:
  "sorted (map siblingKey hs) \<Longrightarrow> sorted_wrt siblingOrder hs"
proof (induction hs)
  case Nil
  then show ?case by simp
next
  case (Cons h hs)
  then show ?case by (auto intro: siblingKey_le)
qed

lemma insort_key_map:
  "insort_key f (g x) (map g xs) = map g (insort_key (\<lambda>y. f (g y)) x xs)"
  by (induction xs) simp_all

lemma sort_key_map: "sort_key f (map g xs) = map g (sort_key (\<lambda>y. f (g y)) xs)"
  by (induction xs) (simp_all add: insort_key_map)

lemma processedSidebarItem_eq: "processedSidebarItem item = (hintsOf item, resolvedOf item)"
  by (cases item) simp_all

text \<open>
  C4: \<^verbatim>\<open>sortItems\<close> returns the resolved items of the siblings, in an order \<open>ps\<close> of the
  siblings that is a permutation of the given list and in which the hints of the siblings
  are sorted by \<open>siblingOrder\<close>: by position where there is one, by path otherwise. The
  resolved item of a note is the note, and the resolved item of a category is the category
  over its own items sorted in the same way, reversed as a whole when the hints of the
  category ask for the reverse order; no resolved item holds a hint.
\<close>

theorem C4_sortItems:
  "\<exists>ps. mset ps = mset sidebarItems
      \<and> sorted_wrt siblingOrder (map hintsOf ps)
      \<and> sortItems sidebarItems = map resolvedOf ps"
proof -
  define ps where "ps = sort_key (\<lambda>item. siblingKey (hintsOf item)) sidebarItems"
  have "mset ps = mset sidebarItems"
    by (simp add: ps_def)
  moreover have "sorted (map siblingKey (map hintsOf ps))"
    using sorted_sort_key [of "\<lambda>item. siblingKey (hintsOf item)" sidebarItems]
    by (simp add: ps_def comp_def)
  then have "sorted_wrt siblingOrder (map hintsOf ps)"
    by (rule sorted_siblingOrder)
  moreover have "sortItems sidebarItems = map resolvedOf ps"
  proof -
    have pe: "processedSidebarItem = (\<lambda>item. (hintsOf item, resolvedOf item))"
      by (rule ext) (rule processedSidebarItem_eq)
    have "sortItems sidebarItems
        = map snd (sort_key (\<lambda>(hints, item). (undefinedLast 0 (position hints), pfname hints))
                     (map processedSidebarItem sidebarItems))"
      by (rule sortItems.simps)
    also have "\<dots>
        = map snd (sort_key (\<lambda>(hints, item). (undefinedLast 0 (position hints), pfname hints))
                     (map (\<lambda>item. (hintsOf item, resolvedOf item)) sidebarItems))"
      by (simp only: pe)
    also have "\<dots> = map snd (map (\<lambda>item. (hintsOf item, resolvedOf item)) ps)"
      unfolding sort_key_map ps_def by (simp add: siblingKey_def)
    also have "\<dots> = map resolvedOf ps"
      by (simp add: comp_def)
    finally show ?thesis .
  qed
  ultimately show ?thesis by blast
qed

lemma generateSidebar_Nil: "generateSidebar (Suc fuel) notesById [] = Some (Inr [])"
  by (simp add: List.map_filter_simps)

lemma generateSidebar_missing:
  "map_of notesById noteId = None
   \<Longrightarrow> generateSidebar (Suc fuel) notesById (noteId # rest) = Some (Inl TypeError)"
  by (simp add: propertyOf_def)

lemma generateSidebar_note:
  "map_of notesById noteId = Some note \<Longrightarrow> children note = []
   \<Longrightarrow> generateSidebar (Suc fuel) notesById rest = Some (Inr others)
   \<Longrightarrow> generateSidebar (Suc fuel) notesById (noteId # rest)
       = Some (Inr (NoteWithPosition (id' note) (title note) (positionalProps note) # others))"
  by (auto simp: List.map_filter_simps propertyOf_def split: option.splits sum.splits)

lemma generateSidebar_category:
  "map_of notesById noteId = Some note \<Longrightarrow> children note \<noteq> []
   \<Longrightarrow> generateSidebar fuel notesById (children note) = Some (Inr items)
   \<Longrightarrow> generateSidebar (Suc fuel) notesById rest = Some (Inr others)
   \<Longrightarrow> generateSidebar (Suc fuel) notesById (noteId # rest)
       = Some (Inr (CategoryWithPosition (title note) items (NoteLink (id' note))
                      (positionalProps note) # others))"
  by (auto simp: List.map_filter_simps propertyOf_def split: option.splits sum.splits)

text \<open>
  A sufficient condition on the note graph for the generator to return items: every id
  has a note, and below every id the children end after at most \<open>n\<close> levels.
\<close>

fun closedBelow :: "nat \<Rightarrow> NotePropsByIdDict \<Rightarrow> string list \<Rightarrow> bool" where
  "closedBelow 0 notesById noteIds =
     list_all (\<lambda>noteId.
        case map_of notesById noteId of
          None \<Rightarrow> False
        | Some note \<Rightarrow> children note = []) noteIds"
| "closedBelow (Suc n) notesById noteIds =
     list_all (\<lambda>noteId.
        case map_of notesById noteId of
          None \<Rightarrow> False
        | Some note \<Rightarrow> children note = [] \<or> closedBelow n notesById (children note)) noteIds"

lemma generateSidebar_closedBelow:
  "closedBelow n notesById noteIds
   \<Longrightarrow> \<exists>items. generateSidebar (Suc n) notesById noteIds = Some (Inr items)"
proof (induction n arbitrary: noteIds)
  case 0
  then show ?case
  proof (induction noteIds)
    case Nil
    show ?case using generateSidebar_Nil by blast
  next
    case (Cons i noteIds)
    from Cons.prems obtain np where np: "map_of notesById i = Some np" "children np = []"
      by (auto split: option.splits)
    from Cons obtain others where "generateSidebar (Suc 0) notesById noteIds = Some (Inr others)"
      by auto
    from generateSidebar_note [OF np this] show ?case by blast
  qed
next
  case (Suc n)
  from Suc.prems show ?case
  proof (induction noteIds)
    case Nil
    show ?case using generateSidebar_Nil by blast
  next
    case (Cons i noteIds)
    from Cons.prems obtain np where np: "map_of notesById i = Some np"
      and below: "children np = [] \<or> closedBelow n notesById (children np)"
      by (auto split: option.splits)
    from Cons obtain others where
      others: "generateSidebar (Suc (Suc n)) notesById noteIds = Some (Inr others)"
      by auto
    show ?case
    proof (cases "children np = []")
      case True
      from generateSidebar_note [OF np True others] show ?thesis by blast
    next
      case False
      with below have "closedBelow n notesById (children np)" by simp
      from Suc.IH [OF this] obtain items where
        "generateSidebar (Suc n) notesById (children np) = Some (Inr items)" by blast
      from generateSidebar_category [OF np False this others] show ?thesis by blast
    qed
  qed
qed

lemma defaultSidebarItemsGenerator_closedBelow:
  assumes "findHierarchySources notesById itemId = Inr hierarchySource"
    and "closedBelow n notesById hierarchySource"
  shows "\<exists>items. defaultSidebarItemsGenerator (Suc n) notesById itemId = Some (Inr items)"
  using generateSidebar_closedBelow [OF assms(2)] assms(1)
  by (auto simp: defaultSidebarItemsGenerator_def)





text \<open>
  C3: the expansion of an autogenerated item does not tolerate a child pointer without a
  note. The note \<open>p\<close> has the child \<open>q\<close>, and \<open>q\<close> is not in the dictionary: the callback of
  \<^verbatim>\<open>generateSidebar\<close> throws a \<^verbatim>\<open>TypeError\<close> at \<open>q\<close> (for every id without a note, with
  any fuel), the generator throws it on, and the item of the sidebar fails with the error
  of status \<^verbatim>\<open>INVALID_CONFIG\<close>. No item list without \<open>q\<close> is returned.
\<close>

theorem C3_generateSidebar_dangling_child:
  "map_of danglingNotes ''q'' = None
   \<and> generateSidebar (Suc fuel) danglingNotes [''q''] = Some (Inl TypeError)
   \<and> defaultSidebarItemsGenerator (Suc (Suc fuel)) danglingNotes ''p'' = Some (Inl TypeError)
   \<and> processSidebars (Suc (Suc fuel)) (Inr [(''defaultSidebar'', [AutogeneratedConfig ''p''])])
        danglingNotes dnb = Some (Inl InvalidConfig)"
  by (simp add: processSidebars_def processSiderbar_def safeProcessItem_def
      defaultSidebarItemsGenerator_def findHierarchySources_def danglingNotes_def plainNote_def
      ROOT_KEYWORD_def resolveItemId_def possibleNotesOf_def propertyOf_def idKey_def
      objectPrototypeKeys_def)

subsection \<open>Duplicate notes and the priority of vaults\<close>

lemma filter_uniqueInOrder: "filter P (uniqueInOrder xs) = uniqueInOrder (filter P xs)"
proof (induction xs rule: uniqueInOrder.induct)
  case 1
  then show ?case by simp
next
  case (2 x xs)
  have swap: "filter P (filter (\<lambda>y. y \<noteq> x) xs) = filter (\<lambda>y. y \<noteq> x) (filter P xs)"
    by (induction xs) auto
  show ?case
  proof (cases "P x")
    case True
    with 2 swap show ?thesis by simp
  next
    case False
    then have "filter (\<lambda>y. y \<noteq> x) (filter P xs) = filter P xs"
      by (induction xs) auto
    with 2 swap False show ?thesis by simp
  qed
qed

lemma case_uniqueInOrder:
  "(case uniqueInOrder xs of [] \<Rightarrow> a | x # _ \<Rightarrow> f x) = (case xs of [] \<Rightarrow> a | x # _ \<Rightarrow> f x)"
  by (cases xs) simp_all

lemma case_filter_find:
  "(case filter P xs of [] \<Rightarrow> None | x # _ \<Rightarrow> f x)
     = (case List.find P xs of None \<Rightarrow> None | Some x \<Rightarrow> f x)"
  by (induction xs) auto

lemma byVault_None:
  "map_of (rev (map (\<lambda>note. (vaultKey note, note)) ns)) v \<noteq> None \<longleftrightarrow> v \<in> vaultKey ` set ns"
  by (force simp: map_of_eq_None_iff)

lemma byVault_Some:
  assumes "distinct (map vaultKey ns)" "n \<in> set ns"
  shows "map_of (rev (map (\<lambda>note. (vaultKey note, note)) ns)) (vaultKey n) = Some n"
proof -
  have "distinct (map fst (rev (map (\<lambda>note. (vaultKey note, note)) ns)))"
    using assms(1) by (simp add: rev_map [symmetric] comp_def)
  moreover have "(vaultKey n, n) \<in> set (rev (map (\<lambda>note. (vaultKey note, note)) ns))"
    using assms(2) by auto
  ultimately show ?thesis by (rule map_of_is_SomeI)
qed

text \<open>
  Two notes with the path \<open>x\<close>, in the vaults \<open>v1\<close> and \<open>v2\<close>, and two notes with the path
  \<open>constructor\<close>, in the same vaults.
\<close>

definition vaultNote :: "string \<Rightarrow> string \<Rightarrow> string \<Rightarrow> NoteProps" where
  "vaultNote i f v = (plainNote i f []) \<lparr>vault := \<lparr>name = Some v, fsPath = ''/'' @ v\<rparr>\<rparr>"

definition duplicateNotes :: NotePropsByIdDict where
  "duplicateNotes =
     [(''id1'', vaultNote ''id1'' ''x'' ''v1''), (''id2'', vaultNote ''id2'' ''x'' ''v2'')]"

definition constructorNotes :: NotePropsByIdDict where
  "constructorNotes =
     [(''id1'', vaultNote ''id1'' ''constructor'' ''v1''),
      (''id2'', vaultNote ''id2'' ''constructor'' ''v2'')]"

text \<open>
  Where the read \<^verbatim>\<open>notes[sidebarId]\<close> is \<^verbatim>\<open>undefined\<close> (the reference is the id of no note
  and not the name of an inherited member), the reference is the path of more than one
  note, the candidates, which lie in different vaults, and the payload is a list of vault
  names: \<^verbatim>\<open>resolveItemId\<close> takes the first name of the list that is the vault of a
  candidate and returns the id of the candidate in that vault; when the list is empty or
  names no vault of a candidate, it returns the id of the first candidate.
\<close>

lemma resolveItemId_vault_priority:
  assumes no_id: "propertyOf (map_of notes) sidebarId = Undefined"
    and dup: "length (filter (\<lambda>note. fname note = sidebarId) (map snd notes)) > 1"
    and across: "distinct (map vaultKey (filter (\<lambda>note. fname note = sidebarId) (map snd notes)))"
  shows "case List.find
                (\<lambda>vaultName. vaultName \<in>
                   vaultKey ` set (filter (\<lambda>note. fname note = sidebarId) (map snd notes)))
                vaultNames of
           Some vaultName \<Rightarrow>
             (\<exists>note \<in> set (filter (\<lambda>note. fname note = sidebarId) (map snd notes)).
                 vaultKey note = vaultName)
             \<and> (\<forall>note \<in> set (filter (\<lambda>note. fname note = sidebarId) (map snd notes)).
                 vaultKey note = vaultName \<longrightarrow>
                 resolveItemId notes (Some \<lparr>payload = VaultNames vaultNames\<rparr>) sidebarId
                   = Inr (Some (id' note)))
         | None \<Rightarrow>
             resolveItemId notes (Some \<lparr>payload = VaultNames vaultNames\<rparr>) sidebarId
               = Inr (Some (id' (hd (filter (\<lambda>note. fname note = sidebarId) (map snd notes)))))"
proof -
  define cands where "cands = filter (\<lambda>note. fname note = sidebarId) (map snd notes)"
  define byVault where "byVault = map_of (rev (map (\<lambda>note. (vaultKey note, note)) cands))"
  have none: "map_of notes sidebarId = None"
    using no_id by (simp add: propertyOf_Undefined_iff)
  have pn: "possibleNotesOf notes sidebarId = cands"
    by (simp add: possibleNotesOf_def none cands_def)
  have dup': "length cands > 1" using dup by (simp only: cands_def)
  have across': "distinct (map vaultKey cands)" using across by (simp only: cands_def)
  have ne: "cands \<noteq> []" using dup' by auto
  have has: "(\<lambda>vaultName. byVault vaultName \<noteq> None) = (\<lambda>vaultName. vaultName \<in> vaultKey ` set cands)"
    unfolding byVault_def by (rule ext) (rule byVault_None)
  have pv: "getPriorityVaults (Some \<lparr>payload = VaultNames vaultNames\<rparr>)
      = Some (uniqueInOrder vaultNames)"
    by (simp add: getPriorityVaults_def)
  have pref: "(case filter (\<lambda>vaultName. byVault vaultName \<noteq> None) (uniqueInOrder vaultNames) of
                 [] \<Rightarrow> None | vaultName # _ \<Rightarrow> byVault vaultName)
      = (case List.find (\<lambda>vaultName. vaultName \<in> vaultKey ` set cands) vaultNames of
           None \<Rightarrow> None | Some vaultName \<Rightarrow> byVault vaultName)"
    by (simp only: filter_uniqueInOrder case_uniqueInOrder case_filter_find has)
  have res: "resolveItemId notes (Some \<lparr>payload = VaultNames vaultNames\<rparr>) sidebarId =
      (case (case List.find (\<lambda>vaultName. vaultName \<in> vaultKey ` set cands) vaultNames of
               None \<Rightarrow> None | Some vaultName \<Rightarrow> byVault vaultName) of
         Some n \<Rightarrow> Inr (Some (id' n))
       | None \<Rightarrow> Inr (Some (id' (hd cands))))"
    unfolding resolveItemId_def no_id Property.case Let_def pn pv option.case
      byVault_def [symmetric] pref
    using dup' ne by (cases cands) (simp_all split: option.splits)
  show ?thesis
  proof (cases "List.find (\<lambda>vaultName. vaultName \<in> vaultKey ` set cands) vaultNames")
    case None
    then show ?thesis using res unfolding cands_def by simp
  next
    case (Some v)
    then have "v \<in> vaultKey ` set cands" by (auto simp: find_Some_iff)
    then have ex: "\<exists>note \<in> set cands. vaultKey note = v" by auto
    have all: "\<forall>note \<in> set cands. vaultKey note = v \<longrightarrow>
        resolveItemId notes (Some \<lparr>payload = VaultNames vaultNames\<rparr>) sidebarId
          = Inr (Some (id' note))"
    proof (intro ballI impI)
      fix n assume n: "n \<in> set cands" "vaultKey n = v"
      have "byVault v = Some n"
        using byVault_Some [OF across' n(1)] n(2) by (simp add: byVault_def)
      with Some res
      show "resolveItemId notes (Some \<lparr>payload = VaultNames vaultNames\<rparr>) sidebarId
          = Inr (Some (id' n))"
        by simp
    qed
    from ex all Some show ?thesis unfolding cands_def by simp
  qed
qed

text \<open>
  The example of the specification: for the notes \<open>x\<close> in \<open>v1\<close> and \<open>v2\<close> the list \<open>[v2]\<close>
  selects the note in \<open>v2\<close>, and the empty list and the list \<open>[v3]\<close> the first note.
\<close>

lemma resolveItemId_duplicateNotes:
  "resolveItemId duplicateNotes (Some \<lparr>payload = VaultNames [''v2'']\<rparr>) ''x'' = Inr (Some ''id2'')
   \<and> resolveItemId duplicateNotes (Some \<lparr>payload = VaultNames []\<rparr>) ''x'' = Inr (Some ''id1'')
   \<and> resolveItemId duplicateNotes (Some \<lparr>payload = VaultNames [''v3'']\<rparr>) ''x'' = Inr (Some ''id1'')"
proof -
  have h1: "propertyOf (map_of duplicateNotes) ''x'' = Undefined"
    by (simp add: duplicateNotes_def propertyOf_def objectPrototypeKeys_def)
  have h2: "length (filter (\<lambda>note. fname note = ''x'') (map snd duplicateNotes)) > 1"
    by (simp add: duplicateNotes_def vaultNote_def plainNote_def)
  have h3: "distinct (map vaultKey (filter (\<lambda>note. fname note = ''x'') (map snd duplicateNotes)))"
    by (simp add: duplicateNotes_def vaultNote_def plainNote_def vaultKey_def)
  have c: "filter (\<lambda>note. fname note = ''x'') (map snd duplicateNotes)
      = [vaultNote ''id1'' ''x'' ''v1'', vaultNote ''id2'' ''x'' ''v2'']"
    by (simp add: duplicateNotes_def vaultNote_def plainNote_def)
  have k: "vaultKey (vaultNote ''id1'' ''x'' ''v1'') = ''v1''"
    "vaultKey (vaultNote ''id2'' ''x'' ''v2'') = ''v2''"
    "id' (vaultNote ''id1'' ''x'' ''v1'') = ''id1''"
    "id' (vaultNote ''id2'' ''x'' ''v2'') = ''id2''"
    by (simp_all add: vaultNote_def plainNote_def vaultKey_def)
  have r2: "resolveItemId duplicateNotes (Some \<lparr>payload = VaultNames [''v2'']\<rparr>) ''x''
      = Inr (Some ''id2'')"
    using resolveItemId_vault_priority [OF h1 h2 h3, of "[''v2'']"] by (simp add: c k)
  have r0: "resolveItemId duplicateNotes (Some \<lparr>payload = VaultNames []\<rparr>) ''x''
      = Inr (Some ''id1'')"
    using resolveItemId_vault_priority [OF h1 h2 h3, of "[]"] by (simp add: c k)
  have r3: "resolveItemId duplicateNotes (Some \<lparr>payload = VaultNames [''v3'']\<rparr>) ''x''
      = Inr (Some ''id1'')"
    using resolveItemId_vault_priority [OF h1 h2 h3, of "[''v3'']"] by (simp add: c k)
  show ?thesis
    using r2 r0 r3 by blast
qed

text \<open>
  C6: a reference that is the path of more than one note, in different vaults, is resolved
  to the note of the first listed vault. The code does not keep to this for a reference
  that is the name of a member inherited from \<^verbatim>\<open>Object.prototype\<close>. The reference
  \<open>constructor\<close> is the id of no note and the path of two notes, in the vaults \<open>v1\<close> and
  \<open>v2\<close>, and the payload is the list \<open>[v2]\<close>: \<^verbatim>\<open>notes["constructor"]\<close> is the inherited member,
  the notes with that path are not looked for, and \<^verbatim>\<open>resolveItemId\<close> returns \<^verbatim>\<open>undefined\<close>,
  not the id \<open>id2\<close> of the note in \<open>v2\<close>.
\<close>

theorem C6_resolveItemId_inherited_name:
  "map_of constructorNotes ''constructor'' = None
   \<and> filter (\<lambda>note. fname note = ''constructor'') (map snd constructorNotes)
       = [vaultNote ''id1'' ''constructor'' ''v1'', vaultNote ''id2'' ''constructor'' ''v2'']
   \<and> vaultKey (vaultNote ''id2'' ''constructor'' ''v2'') = ''v2''
   \<and> propertyOf (map_of constructorNotes) ''constructor'' = Inherited ''constructor''
   \<and> resolveItemId constructorNotes (Some \<lparr>payload = VaultNames [''v2'']\<rparr>) ''constructor''
       = Inr None"
  by (simp add: constructorNotes_def vaultNote_def plainNote_def vaultKey_def propertyOf_def
      objectPrototypeKeys_def resolveItemId_def)

subsection \<open>References that match no note\<close>








text \<open>
  A condition on the note graph under which the generator comes back: below every id the
  children end after at most \<open>n\<close> levels. (An id without a note ends the walk: the
  generator throws there.)
\<close>

fun endsBelow :: "nat \<Rightarrow> NotePropsByIdDict \<Rightarrow> string list \<Rightarrow> bool" where
  "endsBelow 0 notesById noteIds =
     list_all (\<lambda>noteId.
        case map_of notesById noteId of
          None \<Rightarrow> True
        | Some note \<Rightarrow> children note = []) noteIds"
| "endsBelow (Suc n) notesById noteIds =
     list_all (\<lambda>noteId.
        case map_of notesById noteId of
          None \<Rightarrow> True
        | Some note \<Rightarrow> children note = [] \<or> endsBelow n notesById (children note)) noteIds"














text \<open>Calls that all come back make the list of calls come back.\<close>

lemma collect_returns: "\<forall>r \<in> set rs. r \<noteq> None \<Longrightarrow> collect rs \<noteq> None"
  by (induction rs rule: collect.induct) (auto split: option.splits sum.splits)


lemma collect_map_returns: "(\<And>x. x \<in> set xs \<Longrightarrow> f x \<noteq> None) \<Longrightarrow> collect (map f xs) \<noteq> None"
  by (rule collect_returns) auto

lemma generateSidebar_endsBelow:
  "endsBelow n notesById noteIds \<Longrightarrow> generateSidebar (Suc n) notesById noteIds \<noteq> None"
proof (induction n arbitrary: noteIds)
  case 0
  show ?case
    apply (subst generateSidebar.simps(2))
    apply (simp only: map_option_is_None)
    apply (rule collect_map_returns)
    subgoal for noteId
      using 0 by (auto simp: list_all_iff propertyOf_def split: option.splits)
    done
next
  case (Suc n)
  have below: "generateSidebar (Suc n) notesById (children np) \<noteq> None"
    if "noteId \<in> set noteIds" "map_of notesById noteId = Some np" "children np \<noteq> []"
    for noteId np
  proof -
    from that Suc.prems have "endsBelow n notesById (children np)"
      by (auto simp: list_all_iff)
    then show ?thesis by (rule Suc.IH)
  qed
  show ?case
    apply (subst generateSidebar.simps(2))
    apply (simp only: map_option_is_None)
    apply (rule collect_map_returns)
    subgoal premises prems for noteId
    proof (cases "map_of notesById noteId")
      case None
      then show ?thesis by (simp add: propertyOf_def)
    next
      case (Some np)
      show ?thesis
      proof (cases "children np = []")
        case True
        with Some show ?thesis by (simp add: propertyOf_def)
      next
        case False
        from below [OF prems Some False] obtain result where
          "generateSidebar (Suc n) notesById (children np) = Some result" by blast
        with Some False show ?thesis
          by (cases result) (simp_all add: propertyOf_def del: generateSidebar.simps)
      qed
    qed
    done
qed

text \<open>When the sources of an item end below, the generator comes back with enough fuel.\<close>

lemma defaultSidebarItemsGenerator_endsBelow:
  assumes "\<forall>hierarchySource. findHierarchySources notesById itemId = Inr hierarchySource
             \<longrightarrow> endsBelow n notesById hierarchySource"
  shows "defaultSidebarItemsGenerator (Suc n) notesById itemId \<noteq> None"
proof (cases "findHierarchySources notesById itemId")
  case (Inl e)
  then show ?thesis by (simp add: defaultSidebarItemsGenerator_def)
next
  case (Inr hierarchySource)
  with assms have "endsBelow n notesById hierarchySource" by simp
  from generateSidebar_endsBelow [OF this] Inr show ?thesis
    by (simp add: defaultSidebarItemsGenerator_def del: generateSidebar.simps)
qed










text \<open>
  A reference that is the name of a member inherited from \<^verbatim>\<open>Object.prototype\<close>, and the id
  and the path of no note: \<^verbatim>\<open>notes["constructor"]\<close> is the inherited member,
  \<^verbatim>\<open>resolveItemId\<close> does not throw and returns \<^verbatim>\<open>undefined\<close>, and the call returns (with any
  fuel) the mapping of the sidebar, with a note item whose id is \<^verbatim>\<open>undefined\<close>.
\<close>

lemma processSidebars_inherited_reference:
  "map_of rootNotes ''constructor'' = None
   \<and> filter (\<lambda>note. fname note = ''constructor'') (map snd rootNotes) = []
   \<and> resolveItemId rootNotes dnb ''constructor'' = Inr None
   \<and> processSidebars fuel (Inr [(''defaultSidebar'', [NoteConfig ''constructor'' ''C''])])
        rootNotes dnb
       = Some (Inr [(''defaultSidebar'', [NoteItem None ''C''])])"
  by (simp add: processSidebars_def processSiderbar_def safeProcessItem_def resolveItemId_def
      propertyOf_def objectPrototypeKeys_def rootNotes_def plainNote_def)




subsection \<open>The tree menu\<close>

datatype TreeMenuNodeIcon = bookOutlined | numberOutlined | plusOutlined

datatype TreeMenuNode =
  TreeMenuNode
    (key: string)
    (menuTitle: string)
    (icon: "TreeMenuNodeIcon option")
    (hasTitleNumberOutlined: bool)
    (menuVaultName: string)
    (navExclude: bool)
    (menuChildren: "TreeMenuNode list")

text \<open>
  The two indexes that \<^verbatim>\<open>itemToTreeMenuNode\<close> fills while it walks the items, and the
  \<^verbatim>\<open>TreeMenu\<close>: the indexes with the roots.
\<close>

record Indexes =
  child2parent :: Child2Parent
  notesLabelById :: "string \<rightharpoonup> string"

record TreeMenu = Indexes +
  roots :: "TreeMenuNode list"

definition emptyIndexes :: Indexes where
  "emptyIndexes = \<lparr>child2parent = Map.empty, notesLabelById = Map.empty\<rparr>"

text \<open>
  \<^verbatim>\<open>itemToNote\<close>: the id of a note item, the id of the link of a category, and the read
  \<^verbatim>\<open>noteDict[noteId]\<close>.
\<close>

fun itemNoteId :: "string SidebarItem \<Rightarrow> string" where
  "itemNoteId (CategoryItem label items (NoteLink linkId)) = linkId"
| "itemNoteId (NoteItem itemId label) = itemId"

definition itemToNote :: "NotePropsByIdDict \<Rightarrow> string SidebarItem \<Rightarrow> NoteProps Property" where
  "itemToNote noteDict item = propertyOf (map_of noteDict) (itemNoteId item)"

text \<open>
  The node of a note that was found. The constants \<^verbatim>\<open>TAGS_HIERARCHY\<close> and
  \<^verbatim>\<open>TAGS_HIERARCHY_BASE\<close> and the function \<^verbatim>\<open>VaultUtils.getName\<close> are not among the
  sources and are parameters. The title is the label of the item, which is always there.
\<close>

definition iconOf :: "string \<Rightarrow> NoteProps \<Rightarrow> TreeMenuNodeIcon option" where
  "iconOf TAGS_HIERARCHY_BASE note =
     (if schema note \<noteq> None then Some bookOutlined
      else if toLowerCase (fname note) = TAGS_HIERARCHY_BASE then Some numberOutlined
      else if stub note then Some plusOutlined
      else None)"

definition treeMenuNodeOf ::
  "string \<Rightarrow> string \<Rightarrow> (DVault \<Rightarrow> string) \<Rightarrow> NoteProps \<Rightarrow> string \<Rightarrow> TreeMenuNode list
     \<Rightarrow> TreeMenuNode" where
  "treeMenuNodeOf TAGS_HIERARCHY TAGS_HIERARCHY_BASE getName note label nodes =
     TreeMenuNode (id' note) label (iconOf TAGS_HIERARCHY_BASE note)
       (startsWith (fname note) TAGS_HIERARCHY)
       (getName (vault note))
       (case nav_exclude (getPublishFM note) of Some b \<Rightarrow> b | None \<Rightarrow> False)
       nodes"

text \<open>
  The writes of one visit: the label under the id of the note, and the parent when
  \<^verbatim>\<open>child2parent[note.id]\<close> is \<^verbatim>\<open>undefined\<close>. Both indexes are plain objects: the read also
  finds an inherited member, and a write under the key \<^verbatim>\<open>__proto__\<close> with a string makes no
  entry.
\<close>

definition visitNote :: "NoteProps \<Rightarrow> string \<Rightarrow> string option \<Rightarrow> Indexes \<Rightarrow> Indexes" where
  "visitNote note label parent ix =
     (let ix1 = (if id' note = ''__proto__'' then ix
                 else ix\<lparr>notesLabelById := (notesLabelById ix)(id' note \<mapsto> label)\<rparr>)
      in if propertyOf (child2parent ix1) (id' note) = Undefined
         then ix1\<lparr>child2parent := (child2parent ix1)(id' note \<mapsto> parent)\<rparr>
         else ix1)"

text \<open>
  \<^verbatim>\<open>itemToTreeMenuNode\<close>, and the \<^verbatim>\<open>map\<close> over a list of items followed by
  \<^verbatim>\<open>filter(Boolean)\<close>: the items are visited in order and the indexes are passed on. An
  item for which \<^verbatim>\<open>noteDict[noteId]\<close> is \<^verbatim>\<open>undefined\<close> gives \<^verbatim>\<open>undefined\<close>. For the name of
  an inherited member the test \<^verbatim>\<open>_.isUndefined(note)\<close> fails, \<^verbatim>\<open>note.schema\<close> is \<^verbatim>\<open>undefined\<close>,
  and \<^verbatim>\<open>note.fname.toLowerCase()\<close> throws a \<^verbatim>\<open>TypeError\<close>, before anything is written.
\<close>

fun itemToTreeMenuNode ::
  "string \<Rightarrow> string \<Rightarrow> (DVault \<Rightarrow> string) \<Rightarrow> NotePropsByIdDict \<Rightarrow> string SidebarItem
     \<Rightarrow> string option \<Rightarrow> Indexes \<Rightarrow> Thrown + TreeMenuNode option \<times> Indexes"
  and itemsToTreeMenuNodes ::
  "string \<Rightarrow> string \<Rightarrow> (DVault \<Rightarrow> string) \<Rightarrow> NotePropsByIdDict \<Rightarrow> string SidebarItem list
     \<Rightarrow> string option \<Rightarrow> Indexes \<Rightarrow> Thrown + TreeMenuNode list \<times> Indexes" where
  "itemToTreeMenuNode TH THB getName noteDict (NoteItem itemId label) parent ix =
     (case itemToNote noteDict (NoteItem itemId label) of
        Undefined \<Rightarrow> Inr (None, ix)
      | Inherited member \<Rightarrow> Inl TypeError
      | Own note \<Rightarrow>
          Inr (Some (treeMenuNodeOf TH THB getName note label []), visitNote note label parent ix))"
| "itemToTreeMenuNode TH THB getName noteDict (CategoryItem label items (NoteLink linkId)) parent ix =
     (case itemToNote noteDict (CategoryItem label items (NoteLink linkId)) of
        Undefined \<Rightarrow> Inr (None, ix)
      | Inherited member \<Rightarrow> Inl TypeError
      | Own note \<Rightarrow>
          (case itemsToTreeMenuNodes TH THB getName noteDict items (Some (id' note))
                  (visitNote note label parent ix) of
             Inl e \<Rightarrow> Inl e
           | Inr (nodes, ix') \<Rightarrow> Inr (Some (treeMenuNodeOf TH THB getName note label nodes), ix')))"
| "itemsToTreeMenuNodes TH THB getName noteDict [] parent ix = Inr ([], ix)"
| "itemsToTreeMenuNodes TH THB getName noteDict (item # rest) parent ix =
     (case itemToTreeMenuNode TH THB getName noteDict item parent ix of
        Inl e \<Rightarrow> Inl e
      | Inr (maybeTreeMenuNode, ix1) \<Rightarrow>
          (case itemsToTreeMenuNodes TH THB getName noteDict rest parent ix1 of
             Inl e \<Rightarrow> Inl e
           | Inr (nodes, ix2) \<Rightarrow>
               Inr ((case maybeTreeMenuNode of None \<Rightarrow> nodes | Some node \<Rightarrow> node # nodes), ix2)))"

text \<open>
  \<^verbatim>\<open>generateTreeData\<close>: \<^verbatim>\<open>_.mapValues\<close> builds the menu of every sidebar, in order and each
  with fresh indexes, so a throw in any sidebar ends the call; then the menu of the first
  sidebar is returned, and the empty menu when there is no sidebar.
\<close>

definition sidebarToTreeMenu ::
  "string \<Rightarrow> string \<Rightarrow> (DVault \<Rightarrow> string) \<Rightarrow> NotePropsByIdDict \<Rightarrow> string SidebarItem list
     \<Rightarrow> Thrown + TreeMenu" where
  "sidebarToTreeMenu TH THB getName noteDict sidebar =
     (case itemsToTreeMenuNodes TH THB getName noteDict sidebar None emptyIndexes of
        Inl e \<Rightarrow> Inl e
      | Inr (nodes, ix) \<Rightarrow>
          Inr \<lparr>child2parent = child2parent ix, notesLabelById = notesLabelById ix, roots = nodes\<rparr>)"

fun mapValues :: "('a \<Rightarrow> 'e + 'b) \<Rightarrow> (string \<times> 'a) list \<Rightarrow> 'e + (string \<times> 'b) list" where
  "mapValues f [] = Inr []"
| "mapValues f ((k, v) # rest) =
     (case f v of
        Inl e \<Rightarrow> Inl e
      | Inr w \<Rightarrow> (case mapValues f rest of Inl e \<Rightarrow> Inl e | Inr ws \<Rightarrow> Inr ((k, w) # ws)))"

definition generateTreeData ::
  "string \<Rightarrow> string \<Rightarrow> (DVault \<Rightarrow> string) \<Rightarrow> NotePropsByIdDict \<Rightarrow> Sidebars \<Rightarrow> Thrown + TreeMenu" where
  "generateTreeData TH THB getName noteDict sidebars =
     (case mapValues (sidebarToTreeMenu TH THB getName noteDict) sidebars of
        Inl e \<Rightarrow> Inl e
      | Inr treeMenuMap \<Rightarrow>
          (case map snd treeMenuMap of
             [] \<Rightarrow> Inr \<lparr>child2parent = Map.empty, notesLabelById = Map.empty, roots = []\<rparr>
           | treeMenu # _ \<Rightarrow> Inr treeMenu))"

text \<open>
  An item for which \<^verbatim>\<open>noteDict[noteId]\<close> is \<^verbatim>\<open>undefined\<close> (the id is no key of the note
  dictionary and not the name of an inherited member) gives no node and leaves both indexes
  as they were, whatever items are nested in it; the siblings before and after it are
  processed as if the item were not in the list, at the top of a sidebar and inside a
  category; and the build gives what it gives for the sidebar without the item.
\<close>

lemma itemToTreeMenuNode_missing:
  "propertyOf (map_of noteDict) (itemNoteId item) = Undefined
   \<Longrightarrow> itemToTreeMenuNode TH THB getName noteDict item parent ix = Inr (None, ix)"
  by (cases item rule: itemNoteId.cases) (simp_all add: itemToNote_def)

lemma itemsToTreeMenuNodes_drop:
  "propertyOf (map_of noteDict) (itemNoteId item) = Undefined
   \<Longrightarrow> itemsToTreeMenuNodes TH THB getName noteDict (before @ item # rest) parent ix
       = itemsToTreeMenuNodes TH THB getName noteDict (before @ rest) parent ix"
proof (induction before arbitrary: ix)
  case Nil
  then show ?case by (simp add: itemToTreeMenuNode_missing split: sum.splits prod.splits)
next
  case (Cons b before)
  then show ?case by (simp split: sum.splits prod.splits)
qed

lemma generateTreeData_drops_missing:
  assumes "propertyOf (map_of noteDict) (itemNoteId item) = Undefined"
  shows "itemToTreeMenuNode TH THB getName noteDict item parent ix = Inr (None, ix)
    \<and> itemsToTreeMenuNodes TH THB getName noteDict (before @ item # rest) parent ix
        = itemsToTreeMenuNodes TH THB getName noteDict (before @ rest) parent ix
    \<and> generateTreeData TH THB getName noteDict ((sidebarName, before @ item # rest) # others)
        = generateTreeData TH THB getName noteDict ((sidebarName, before @ rest) # others)"
  using assms
  by (simp add: itemToTreeMenuNode_missing itemsToTreeMenuNodes_drop generateTreeData_def
      sidebarToTreeMenu_def)

text \<open>
  Over the notes \<open>root\<close>, \<open>b\<close>, \<open>a\<close>, \<open>a.x\<close>: a category \<open>gone\<close> between the notes \<open>a\<close> and \<open>b\<close> is
  dropped with the item nested in it, and has no entry in the indexes.
\<close>

definition goneItem :: "string SidebarItem" where
  "goneItem = CategoryItem ''Gone'' [NoteItem ''b'' ''B''] (NoteLink ''gone'')"

lemma generateTreeData_goneItem:
  "generateTreeData ''tags.'' ''tags'' fsPath rootNotes
      [(''defaultSidebar'', [NoteItem ''a'' ''A'', goneItem, NoteItem ''b'' ''B''])]
     = Inr \<lparr>child2parent = [''a'' \<mapsto> None, ''b'' \<mapsto> None],
            notesLabelById = [''a'' \<mapsto> ''A'', ''b'' \<mapsto> ''B''],
            roots = [TreeMenuNode ''a'' ''A'' None False ''vault'' False [],
                     TreeMenuNode ''b'' ''B'' None False ''vault'' False []]\<rparr>"
proof -
  have h: "propertyOf (map_of rootNotes) (itemNoteId goneItem) = Undefined"
    by (simp add: rootNotes_def goneItem_def propertyOf_def objectPrototypeKeys_def)
  have without: "generateTreeData ''tags.'' ''tags'' fsPath rootNotes
        [(''defaultSidebar'', [NoteItem ''a'' ''A'', NoteItem ''b'' ''B''])]
      = Inr \<lparr>child2parent = [''a'' \<mapsto> None, ''b'' \<mapsto> None],
             notesLabelById = [''a'' \<mapsto> ''A'', ''b'' \<mapsto> ''B''],
             roots = [TreeMenuNode ''a'' ''A'' None False ''vault'' False [],
                      TreeMenuNode ''b'' ''B'' None False ''vault'' False []]\<rparr>"
    by (simp add: generateTreeData_def sidebarToTreeMenu_def rootNotes_def plainNote_def
        treeMenuNodeOf_def iconOf_def visitNote_def emptyIndexes_def startsWith_def
        getPublishFM_def toLowerCase_def toLowerChar_def propertyOf_def objectPrototypeKeys_def
        itemToNote_def)
  from generateTreeData_drops_missing
    [OF h, of "''tags.''" "''tags''" fsPath None emptyIndexes "[NoteItem ''a'' ''A'']"
       "[NoteItem ''b'' ''B'']" "''defaultSidebar''" "[]"]
  show ?thesis
    using without by simp
qed

text \<open>
  C8: an item whose note id is absent from the note dictionary gives no node, and the
  build does not fail. The code does not keep to this for an id that is the name of a
  member inherited from \<^verbatim>\<open>Object.prototype\<close>. Over the notes \<open>root\<close>, \<open>b\<close>, \<open>a\<close>, \<open>a.x\<close> the id
  \<open>constructor\<close> is no key of the dictionary; \<^verbatim>\<open>noteDict["constructor"]\<close> is the inherited
  member, the item is not dropped, \<^verbatim>\<open>note.fname.toLowerCase()\<close> throws a \<^verbatim>\<open>TypeError\<close>, and
  the build of the menu fails with it, for the sidebar of the item and also when that
  sidebar is not the first.
\<close>

theorem C8_generateTreeData_inherited_id:
  "map_of rootNotes ''constructor'' = None
   \<and> itemToNote rootNotes (NoteItem ''constructor'' ''C'') = Inherited ''constructor''
   \<and> itemToTreeMenuNode TH THB getName rootNotes (NoteItem ''constructor'' ''C'') parent ix
       = Inl TypeError
   \<and> generateTreeData TH THB getName rootNotes
        [(''defaultSidebar'', [NoteItem ''a'' ''A'', NoteItem ''constructor'' ''C'', NoteItem ''b'' ''B''])]
       = Inl TypeError
   \<and> generateTreeData TH THB getName rootNotes
        [(''defaultSidebar'', [NoteItem ''a'' ''A'']),
         (''second'', [NoteItem ''constructor'' ''C''])]
       = Inl TypeError"
  by (simp add: generateTreeData_def sidebarToTreeMenu_def itemToNote_def propertyOf_def
      objectPrototypeKeys_def rootNotes_def plainNote_def)

end
